theory Spec2Isabelle
  imports Main "HOL-Library.Sublist"
begin

section \<open>Strings and machine integers of the Go program\<close>

text \<open>
  A Go \<open>string\<close> is a sequence of bytes; it is modelled as a \<open>char list\<close>, one
  \<open>char\<close> per byte. A rune outside ASCII is the bytes of its UTF-8 encoding.

  Go's \<open>int\<close> is taken to be a 64-bit two's complement integer, as it is on amd64 and
  arm64. Values are modelled as \<open>int\<close>; the one addition of the program whose operand
  comes from outside (\<open>startIndex + maxDrafts\<close>) is wrapped explicitly by \<open>wrapInt\<close>,
  as Go's addition wraps around on overflow.
\<close>

definition maxInt :: int where
  "maxInt = 9223372036854775807"

definition minInt :: int where
  "minInt = - 9223372036854775808"

definition wrapInt :: "int \<Rightarrow> int" where
  "wrapInt x = (x + 9223372036854775808) mod 18446744073709551616 - 9223372036854775808"

definition CRLF :: string where
  "CRLF = [CHR 0x0D, CHR 0x0A]"

subsection \<open>White space (package unicode / fmt)\<close>

text \<open>
  The runes that \<open>unicode.IsSpace\<close> and the scanner of package \<open>fmt\<close> treat as white
  space, each as the bytes of its UTF-8 encoding: U+0009 to U+000D, U+0020, U+0085,
  U+00A0, U+1680, U+2000 to U+200A, U+2028, U+2029, U+202F, U+205F and U+3000.
\<close>

definition spaceRunes :: "string list" where
  "spaceRunes =
     [[CHR 0x09], [CHR 0x0A], [CHR 0x0B], [CHR 0x0C], [CHR 0x0D], [CHR 0x20],
      [CHR 0xC2, CHR 0x85], [CHR 0xC2, CHR 0xA0],
      [CHR 0xE1, CHR 0x9A, CHR 0x80],
      [CHR 0xE2, CHR 0x80, CHR 0x80], [CHR 0xE2, CHR 0x80, CHR 0x81],
      [CHR 0xE2, CHR 0x80, CHR 0x82], [CHR 0xE2, CHR 0x80, CHR 0x83],
      [CHR 0xE2, CHR 0x80, CHR 0x84], [CHR 0xE2, CHR 0x80, CHR 0x85],
      [CHR 0xE2, CHR 0x80, CHR 0x86], [CHR 0xE2, CHR 0x80, CHR 0x87],
      [CHR 0xE2, CHR 0x80, CHR 0x88], [CHR 0xE2, CHR 0x80, CHR 0x89],
      [CHR 0xE2, CHR 0x80, CHR 0x8A],
      [CHR 0xE2, CHR 0x80, CHR 0xA8], [CHR 0xE2, CHR 0x80, CHR 0xA9],
      [CHR 0xE2, CHR 0x80, CHR 0xAF],
      [CHR 0xE2, CHR 0x81, CHR 0x9F],
      [CHR 0xE3, CHR 0x80, CHR 0x80]]"

text \<open>The white-space rune a string starts with, or ends with, if any.\<close>

definition leadingSpace :: "string \<Rightarrow> string option" where
  "leadingSpace s = find (\<lambda>r. prefix r s) spaceRunes"

definition trailingSpace :: "string \<Rightarrow> string option" where
  "trailingSpace s = find (\<lambda>r. suffix r s) spaceRunes"

lemma spaceRunes_nonempty: "r \<in> set spaceRunes \<Longrightarrow> r \<noteq> []"
  by (auto simp: spaceRunes_def)

lemma find_Some_mem: "find P xs = Some x \<Longrightarrow> x \<in> set xs \<and> P x"
  by (induction xs) (auto split: if_splits)

lemma leadingSpace_Some: "leadingSpace s = Some r \<Longrightarrow> r \<noteq> [] \<and> prefix r s"
  unfolding leadingSpace_def by (blast dest: find_Some_mem spaceRunes_nonempty)

lemma trailingSpace_Some: "trailingSpace s = Some r \<Longrightarrow> r \<noteq> [] \<and> suffix r s"
  unfolding trailingSpace_def by (blast dest: find_Some_mem spaceRunes_nonempty)

lemma drop_space_shorter: "leadingSpace s = Some r \<Longrightarrow> length (drop (length r) s) < length s"
  by (cases r) (auto dest!: leadingSpace_Some dest: prefix_length_le)

lemma take_space_shorter:
  "trailingSpace s = Some r \<Longrightarrow> length (take (length s - length r) s) < length s"
  by (cases r) (auto dest!: trailingSpace_Some dest: suffix_length_le)

text \<open>\<open>strings.TrimSpace\<close>: all leading and trailing white space removed.\<close>

function trimLeft :: "string \<Rightarrow> string" where
  "trimLeft s = (case leadingSpace s of None \<Rightarrow> s | Some r \<Rightarrow> trimLeft (drop (length r) s))"
  by pat_completeness auto
termination
  by (relation "measure length") (simp_all add: drop_space_shorter del: length_drop)

function trimRight :: "string \<Rightarrow> string" where
  "trimRight s =
     (case trailingSpace s of None \<Rightarrow> s | Some r \<Rightarrow> trimRight (take (length s - length r) s))"
  by pat_completeness auto
termination
  by (relation "measure length") (simp_all add: take_space_shorter del: length_take)

declare trimLeft.simps [simp del] trimRight.simps [simp del]

definition TrimSpace :: "string \<Rightarrow> string" where
  "TrimSpace s = trimRight (trimLeft s)"

subsection \<open>Decimal integers: \<open>fmt.Sprintf("%d", n)\<close> and \<open>fmt.Sscanf(s, "%d", &n)\<close>\<close>

definition isDigit :: "char \<Rightarrow> bool" where
  "isDigit c = (48 \<le> (of_char c :: nat) \<and> (of_char c :: nat) \<le> 57)"

definition digitChar :: "nat \<Rightarrow> char" where
  "digitChar d = char_of (48 + d)"

definition digitVal :: "char \<Rightarrow> int" where
  "digitVal c = int (of_char c) - 48"

text \<open>The decimal digits of a natural number, most significant first.\<close>

fun natDigits :: "nat \<Rightarrow> string" where
  "natDigits n = (if n < 10 then [digitChar n] else natDigits (n div 10) @ [digitChar (n mod 10)])"

declare natDigits.simps [simp del]

text \<open>\<open>fmt.Sprintf("%d", n)\<close>: a minus sign for a negative number, then the digits.\<close>

definition Sprintf_d :: "int \<Rightarrow> string" where
  "Sprintf_d n = (if n < 0 then CHR ''-'' # natDigits (nat (- n)) else natDigits (nat n))"

text \<open>The value of a run of decimal digits (\<open>strconv.ParseInt\<close> in base 10).\<close>

definition digitsVal :: "string \<Rightarrow> int" where
  "digitsVal ds = foldl (\<lambda>acc c. 10 * acc + digitVal c) 0 ds"

text \<open>
  The scanner's \<open>SkipSpace\<close> under \<open>Sscanf\<close>: white space is skipped, but a newline
  in the input is the error "unexpected newline" (\<open>None\<close>).
\<close>

function skipSpace :: "string \<Rightarrow> string option" where
  "skipSpace s =
     (case leadingSpace s of
        None \<Rightarrow> Some s
      | Some r \<Rightarrow> if r = [CHR 0x0A] then None else skipSpace (drop (length r) s))"
  by pat_completeness auto
termination
  by (relation "measure length") (simp_all add: drop_space_shorter del: length_drop)

declare skipSpace.simps [simp del]

text \<open>An optional sign is accepted before the digits.\<close>

definition acceptSign :: "string \<Rightarrow> bool \<times> string" where
  "acceptSign s =
     (case s of
        [] \<Rightarrow> (False, [])
      | c # cs \<Rightarrow> if c = CHR ''-'' then (True, cs) else if c = CHR ''+'' then (False, cs)
                 else (False, s))"

text \<open>
  \<open>fmt.Sscanf(s, "%d", &n)\<close>: skip white space, accept a sign, read the longest run of
  decimal digits (at least one, else "expected integer"), and convert it; a value outside
  the range of \<open>int\<close> is an error. Input after the number is left unread. \<open>None\<close> is any
  error.
\<close>

definition Sscanf_d :: "string \<Rightarrow> int option" where
  "Sscanf_d s =
     (case skipSpace s of
        None \<Rightarrow> None
      | Some t \<Rightarrow>
          (let (neg, u) = acceptSign t;
               ds = takeWhile isDigit u;
               v = (if neg then - digitsVal ds else digitsVal ds)
           in if ds = [] then None
              else if minInt \<le> v \<and> v \<le> maxInt then Some v
              else None))"

section \<open>Batch cursor (main.go, generateDrafts, lines 69-80 and 146-151)\<close>

definition maxDrafts :: int where
  "maxDrafts = 30"

text \<open>
  Lines 70-78: the start index is 1 unless the progress file can be read
  (\<open>Some data\<close>) and an integer can be scanned from it.
\<close>

definition loadStart :: "string option \<Rightarrow> int" where
  "loadStart file =
     (case file of
        None \<Rightarrow> 1
      | Some data \<Rightarrow> (case Sscanf_d data of None \<Rightarrow> 1 | Some savedIndex \<Rightarrow> savedIndex))"

text \<open>
  Line 80 (\<open>endIndex := startIndex + maxDrafts\<close>, an addition of \<open>int\<close>s) and lines
  147-150 (the saved index \<open>newProgress\<close> is \<open>endIndex\<close>, or the number of rows when
  \<open>endIndex\<close> is larger), with the batch size as a parameter. \<open>computeWindow\<close> pairs the
  start of the window with its saved end.
\<close>

definition endIndexOf :: "int \<Rightarrow> int \<Rightarrow> int" where
  "endIndexOf startIndex batchSize = wrapInt (startIndex + batchSize)"

definition newProgressOf :: "int \<Rightarrow> int \<Rightarrow> int" where
  "newProgressOf endIndex totalRows = (if endIndex > totalRows then totalRows else endIndex)"

definition computeWindow :: "int \<Rightarrow> int \<Rightarrow> int \<Rightarrow> int \<times> int" where
  "computeWindow startIndex batchSize totalRows =
     (startIndex, newProgressOf (endIndexOf startIndex batchSize) totalRows)"

section \<open>Row extractor (main.go, generateDrafts, lines 106-126)\<close>

record recipient =
  recipientName :: string
  recipientEmail :: string
  recipientResearch :: string

text \<open>
  \<open>strings.SplitN(s, sep, 2)\<close> for a one-byte separator: the string itself when the
  separator does not occur, else the part before its first occurrence and the part after.
\<close>

definition SplitN2 :: "string \<Rightarrow> char \<Rightarrow> string list" where
  "SplitN2 s sep =
     (if sep \<in> set s
      then [takeWhile (\<lambda>c. c \<noteq> sep) s, tl (dropWhile (\<lambda>c. c \<noteq> sep) s)]
      else [s])"

text \<open>
  One row of the sheet: \<open>None\<close> where the loop body reaches a \<open>continue\<close> before the
  text-generation call, else the recipient.
\<close>

definition extractRow :: "string list \<Rightarrow> recipient option" where
  "extractRow row =
     (if length row < 3 then None
      else
        let profInfo = TrimSpace (row ! 1);
            research = TrimSpace (row ! 2)
        in if profInfo = [] \<or> research = [] then None
           else
             let parts = SplitN2 profInfo (CHR '':'')
             in if length parts < 2 then None
                else
                  let name = TrimSpace (parts ! 0);
                      email = TrimSpace (parts ! 1)
                  in if name = [] \<or> email = [] then None
                     else Some \<lparr>recipientName = name, recipientEmail = email, recipientResearch = research\<rparr>)"

section \<open>Collaborators and the state of a run\<close>

text \<open>
  A Go \<open>error\<close>: one returned by a collaborator (file system, spreadsheet library,
  text-generation API, mail API), or one built by \<open>fmt.Errorf\<close> from a message and
  possibly a wrapped error (\<open>%w\<close>).
\<close>

datatype error = External string | Errorf string "error option"

text \<open>
  What the program reads from outside during one run. Calls made while row \<open>i\<close> of the
  sheet is processed are indexed by \<open>i\<close>, since the same call may be answered
  differently for different rows.
  \<^item> \<open>OpenFile\<close>: \<open>excelize.OpenFile\<close>; the result answers \<open>GetRows\<close> for a sheet name;
  \<^item> \<open>ReadProgress\<close>: \<open>os.ReadFile\<close> of the progress file, \<open>None\<close> when it returns an error;
  \<^item> \<open>GmailService\<close>: the error of \<open>getGmailService\<close>, if any;
  \<^item> \<open>Getenv\<close>: \<open>os.Getenv\<close>;
  \<^item> \<open>CreateChatCompletion i\<close>: the answer of the text-generation API to the request made
    for row \<open>i\<close>: an error, or the contents of the returned choices;
  \<^item> \<open>ReadAttachment i\<close>: \<open>os.ReadFile\<close> of the attachment while row \<open>i\<close> is processed;
  \<^item> \<open>TypeByExtension\<close>: \<open>mime.TypeByExtension\<close>;
  \<^item> \<open>DraftsCreate i\<close>: the error of \<open>Users.Drafts.Create(...).Do()\<close> for row \<open>i\<close>, if any;
  \<^item> \<open>Intn i\<close>: the value of \<open>r.Intn(len(subjects))\<close> drawn for row \<open>i\<close> from the
    generator seeded with the clock.
\<close>

record world =
  OpenFile :: "string \<Rightarrow> error + (string \<Rightarrow> error + string list list)"
  ReadProgress :: "string \<Rightarrow> string option"
  GmailService :: "error option"
  Getenv :: "string \<Rightarrow> string"
  CreateChatCompletion :: "nat \<Rightarrow> error + string list"
  ReadAttachment :: "nat \<Rightarrow> string \<Rightarrow> error + string"
  TypeByExtension :: "string \<Rightarrow> string"
  DraftsCreate :: "nat \<Rightarrow> string \<Rightarrow> error option"
  Intn :: "nat \<Rightarrow> nat"

text \<open>The lines the loop writes to the log.\<close>

datatype logLine =
    OpenAIError string error
  | TopicExtractionFailed string "error option"
  | EmailGenerationFailed string error
  | DraftCreationFailed string error
  | DraftCreated string string

text \<open>
  The state the loop changes: the counter \<open>count\<close>, the log, and two traces of the calls
  made: the arguments (to, subject, body) of every call of \<open>createDraft\<close>, and the raw
  messages handed to the mail service's draft-creation call.
\<close>

record run =
  count :: nat
  calls :: "(string \<times> string \<times> string) list"
  submitted :: "string list"
  logs :: "logLine list"

definition initRun :: run where
  "initRun = \<lparr>count = 0, calls = [], submitted = [], logs = []\<rparr>"

section \<open>Content generator and message composer (main.go)\<close>

definition excelPath :: string where
  "excelPath = ''professors.xlsx''"

definition sheetName :: string where
  "sheetName = ''UESTC''"

definition schoolName :: string where
  "schoolName = ''School of Information and Software Engineering, University of Electronic Science and Technology of China (UESTC)''"

definition attachmentPath :: string where
  "attachmentPath = ''UsamaShoukatCV.pdf''"

definition progressFile :: string where
  "progressFile = ''progress.txt''"

text \<open>
  \<open>generateResearchParagraph\<close> (lines 158-192), given the API's answer to its request:
  the API's error, or "no choices returned", or the trimmed content of the first choice.
  The request itself (the model name, the system message and the prompt built around the
  research text) is not part of the model: the answer belongs to the collaborator, and
  one request is made per recipient.
\<close>

definition generateResearchParagraph :: "error + string list \<Rightarrow> error + string" where
  "generateResearchParagraph resp =
     (case resp of
        Inl err \<Rightarrow> Inl err
      | Inr choices \<Rightarrow>
          if length choices = 0 then Inl (Errorf ''no choices returned'' None)
          else Inr (TrimSpace (hd choices)))"

text \<open>The fallback paragraph of line 131.\<close>

definition fallbackParagraph :: "string \<Rightarrow> string" where
  "fallbackParagraph research =
     ''Your research on '' @ research @ '' strongly aligns with my academic background and interests.''"

text \<open>\<open>generateEmailBody\<close> (lines 194-222): the subject and the filled template.\<close>

definition generateEmailBody :: "string \<Rightarrow> string \<Rightarrow> string \<times> string" where
  "generateEmailBody profName researchPara =
    (''Request for Master's Supervision (September 2026 Intake)'',
     concat [
      ''\<newline>'',
      ''<html>\<newline>'',
      ''<body>\<newline>'',
      ''Dear Professor '',
      profName,
      '',<br><br>\<newline>'',
      ''\<newline>'',
      ''I hope you are in a good health. I am <b>Usama Shoukat</b>, and I recently completed my <b>Bachelor's in Computer Science</b> from the <b>Government College University of Faisalabad, Pakistan</b> with a CGPA of <b>3.51/4.00</b>. I have a strong background in <b>software engineering and backend systems</b> where I have worked with Golang, JavaScript, APIs, distributed systems and different AI tools.<br><br>\<newline>'',
      ''\<newline>'',
      ''I want to apply for a <b>Master'',
      [CHR 0xE2, CHR 0x80, CHR 0x99],
      ''s Program under your supervision at the '',
      schoolName,
      ''</b> via the <b>Chinese Government Scholarship (CSC) 2026</b>.<br><br>\<newline>'',
      ''\<newline>'',
      researchPara,
      ''<br><br>\<newline>'',
      ''\<newline>'',
      ''If you are accepting new students, I would like to contribute to your research and learn under your guidance for the <b>2026 intake</b>. I have attached my CV for your review.<br><br>\<newline>'',
      ''\<newline>'',
      ''Looking forward to hearing back from you.<br><br>\<newline>'',
      ''\<newline>'',
      ''Best regards,<br>\<newline>'',
      ''<b>Usama Shoukat</b><br>\<newline>'',
      ''WeChat ID: UsamaShoukatCS<br>\<newline>'',
      ''GitHub: <a href=\"https://github.com/usamashoukatcs\">github.com/usamashoukatcs</a><br>\<newline>'',
      ''LinkedIn: <a href=\"https://www.linkedin.com/in/usama-shoukat/\">linkedin.com/in/usama-shoukat</a>\<newline>'',
      ''</body>\<newline>'',
      ''</html>\<newline>''])"

section \<open>MIME builder (main.go, buildRawEmail, lines 256-303)\<close>

subsection \<open>Base64 (package encoding/base64, RFC 4648)\<close>

definition encodeStd :: string where
  "encodeStd = ''ABCDEFGHIJKLMNOPQRSTUVWXYZabcdefghijklmnopqrstuvwxyz0123456789+/''"

definition encodeURL :: string where
  "encodeURL = ''ABCDEFGHIJKLMNOPQRSTUVWXYZabcdefghijklmnopqrstuvwxyz0123456789-_''"

definition padChar :: char where
  "padChar = CHR ''=''"

text \<open>
  \<open>EncodeToString\<close> with the alphabet \<open>enc\<close> and padding: three bytes form a 24-bit
  value whose four 6-bit groups index the alphabet; a last group of one or two bytes is
  padded with \<open>=\<close>.
\<close>

fun EncodeToString :: "string \<Rightarrow> string \<Rightarrow> string" where
  "EncodeToString enc (a # b # c # src) =
     (let v = (of_char a :: nat) * 65536 + of_char b * 256 + of_char c
      in [enc ! (v div 262144 mod 64), enc ! (v div 4096 mod 64),
          enc ! (v div 64 mod 64), enc ! (v mod 64)]
         @ EncodeToString enc src)"
| "EncodeToString enc [a, b] =
     (let v = (of_char a :: nat) * 65536 + of_char b * 256
      in [enc ! (v div 262144 mod 64), enc ! (v div 4096 mod 64),
          enc ! (v div 64 mod 64), padChar])"
| "EncodeToString enc [a] =
     (let v = (of_char a :: nat) * 65536
      in [enc ! (v div 262144 mod 64), enc ! (v div 4096 mod 64), padChar, padChar])"
| "EncodeToString enc [] = []"

text \<open>The position of a character in the alphabet.\<close>

definition decodeChar :: "string \<Rightarrow> char \<Rightarrow> nat option" where
  "decodeChar enc c = map_of (zip enc [0 ..< length enc]) c"

text \<open>
  \<open>DecodeString\<close> with the alphabet \<open>enc\<close> and padding: groups of four characters, the
  last one possibly padded; \<open>None\<close> for input that is not such an encoding.
\<close>

fun DecodeString :: "string \<Rightarrow> string \<Rightarrow> string option" where
  "DecodeString enc (c1 # c2 # c3 # c4 # rest) =
     (if rest = [] \<and> c4 = padChar then
        (if c3 = padChar then
           (case (decodeChar enc c1, decodeChar enc c2) of
              (Some i1, Some i2) \<Rightarrow>
                (let v = (i1 * 64 + i2) * 4096 in Some [char_of (v div 65536)])
            | _ \<Rightarrow> None)
         else
           (case (decodeChar enc c1, decodeChar enc c2, decodeChar enc c3) of
              (Some i1, Some i2, Some i3) \<Rightarrow>
                (let v = ((i1 * 64 + i2) * 64 + i3) * 64
                 in Some [char_of (v div 65536), char_of (v div 256 mod 256)])
            | _ \<Rightarrow> None))
      else
        (case (decodeChar enc c1, decodeChar enc c2, decodeChar enc c3, decodeChar enc c4) of
           (Some i1, Some i2, Some i3, Some i4) \<Rightarrow>
             (let v = ((i1 * 64 + i2) * 64 + i3) * 64 + i4
              in map_option
                   (\<lambda>bytes. [char_of (v div 65536), char_of (v div 256 mod 256), char_of (v mod 256)]
                              @ bytes)
                   (DecodeString enc rest))
         | _ \<Rightarrow> None))"
| "DecodeString enc [] = Some []"
| "DecodeString enc _ = None"

text \<open>Removing every carriage return and line feed.\<close>

definition stripCRLF :: "string \<Rightarrow> string" where
  "stripCRLF s = filter (\<lambda>c. c \<noteq> CHR 0x0D \<and> c \<noteq> CHR 0x0A) s"

subsection \<open>Paths (package path/filepath)\<close>

text \<open>
  \<open>filepath.Split\<close>: the directory up to and including the last slash, and the file
  name after it. \<open>filepath.Ext\<close>: the suffix of the file name from its last dot, empty
  when it has none.
\<close>

definition Split :: "string \<Rightarrow> string \<times> string" where
  "Split path =
     (let file = rev (takeWhile (\<lambda>c. c \<noteq> CHR ''/'') (rev path))
      in (take (length path - length file) path, file))"

definition Ext :: "string \<Rightarrow> string" where
  "Ext path =
     (let file = snd (Split path)
      in if CHR ''.'' \<in> set file
         then CHR ''.'' # rev (takeWhile (\<lambda>c. c \<noteq> CHR ''.'') (rev file))
         else [])"

subsection \<open>The message\<close>

text \<open>The Go slice expression \<open>s[i:j]\<close> for \<open>i \<le> j \<le> len(s)\<close>.\<close>

definition slice :: "string \<Rightarrow> nat \<Rightarrow> nat \<Rightarrow> string" where
  "slice s i j = take (j - i) (drop i s)"

text \<open>
  Lines 290-296: the loop that writes the encoded attachment to the builder \<open>msg\<close> in
  pieces of 76 characters, each followed by CRLF.
\<close>

function wrapLoop :: "string \<Rightarrow> nat \<Rightarrow> string \<Rightarrow> string" where
  "wrapLoop encoded i msg =
     (if i < length encoded then
        (let end' = (if i + 76 > length encoded then length encoded else i + 76)
         in wrapLoop encoded (i + 76) (msg @ slice encoded i end' @ CRLF))
      else msg)"
  by pat_completeness auto
termination
  by (relation "measure (\<lambda>(encoded, i, msg). length encoded - i)") auto

declare wrapLoop.simps [simp del]

text \<open>
  The pieces \<open>encoded[i:end]\<close> that the loop writes from index \<open>i\<close> on, in order.
\<close>

function linesFrom :: "string \<Rightarrow> nat \<Rightarrow> string list" where
  "linesFrom encoded i =
     (if i < length encoded then
        (let end' = (if i + 76 > length encoded then length encoded else i + 76)
         in slice encoded i end' # linesFrom encoded (i + 76))
      else [])"
  by pat_completeness auto
termination
  by (relation "measure (\<lambda>(encoded, i). length encoded - i)") auto

declare linesFrom.simps [simp del]

definition buildRawEmail ::
  "world \<Rightarrow> nat \<Rightarrow> string \<Rightarrow> string \<Rightarrow> string \<Rightarrow> string \<Rightarrow> error + string" where
  "buildRawEmail w i to subject plainBody attachmentFile =
     (let boundary = ''BOUNDARY123'';
          msg = concat [''To: '', to, CRLF,
                        ''Subject: '', subject, CRLF,
                        ''MIME-Version: 1.0'', CRLF,
                        ''Content-Type: multipart/mixed; boundary='', boundary, CRLF,
                        CRLF,
                        ''--'', boundary, CRLF,
                        ''Content-Type: text/html; charset=utf-8'', CRLF, CRLF,
                        plainBody, CRLF]
      in case ReadAttachment w i attachmentFile of
           Inl err \<Rightarrow> Inl err
         | Inr data \<Rightarrow>
             (let fileName = snd (Split attachmentFile);
                  mimeType = (let t = TypeByExtension w (Ext fileName)
                              in if t = [] then ''application/octet-stream'' else t);
                  msg = concat [msg,
                          ''--'', boundary, CRLF,
                          ''Content-Type: '', mimeType, ''; name=\"'', fileName, ''\"'', CRLF,
                          ''Content-Transfer-Encoding: base64'', CRLF,
                          ''Content-Disposition: attachment; filename=\"'', fileName, ''\"'',
                          CRLF, CRLF];
                  encoded = EncodeToString encodeStd data;
                  msg = wrapLoop encoded 0 msg;
                  msg = concat [msg, ''--'', boundary, ''--'']
              in Inr (EncodeToString encodeURL msg)))"

section \<open>Draft dispatcher and the batch (main.go)\<close>

text \<open>
  \<open>createDraft\<close> (lines 245-254): a build error is returned wrapped and the mail
  service is not called; else the raw message is handed to the draft-creation call,
  whose error, if any, is returned.
\<close>

definition createDraft ::
  "world \<Rightarrow> nat \<Rightarrow> string \<Rightarrow> string \<Rightarrow> string \<Rightarrow> string \<Rightarrow> run \<Rightarrow> error option \<times> run" where
  "createDraft w i to subject body attachmentFile st =
     (let st = st\<lparr>calls := calls st @ [(to, subject, body)]\<rparr>
      in case buildRawEmail w i to subject body attachmentFile of
           Inl err \<Rightarrow> (Some (Errorf ''build email: '' (Some err)), st)
         | Inr rawMsg \<Rightarrow> (DraftsCreate w i rawMsg, st\<lparr>submitted := submitted st @ [rawMsg]\<rparr>))"

text \<open>
  Lines 136-141, shared by the variants of the loop: the draft is created, the outcome is
  logged, and the counter is incremented on success. The pause of two seconds that follows
  (line 143) is not part of the model.
\<close>

definition dispatch :: "world \<Rightarrow> nat \<Rightarrow> recipient \<Rightarrow> string \<Rightarrow> string \<Rightarrow> run \<Rightarrow> run" where
  "dispatch w i r subject body st =
     (case createDraft w i (recipientEmail r) subject body attachmentPath st of
        (Some err, st') \<Rightarrow> st'\<lparr>logs := logs st' @ [DraftCreationFailed (recipientName r) err]\<rparr>
      | (None, st') \<Rightarrow>
          st'\<lparr>logs := logs st' @ [DraftCreated (recipientName r) (recipientEmail r)], count := count st' + 1\<rparr>)"

text \<open>
  Lines 128-143: the body of the loop for a row that yields a recipient. A failed
  generation is logged and replaced by the fallback paragraph.
\<close>

definition processRecipient :: "world \<Rightarrow> nat \<Rightarrow> recipient \<Rightarrow> run \<Rightarrow> run" where
  "processRecipient w i r st =
     (let (para, st) =
            (case generateResearchParagraph (CreateChatCompletion w i) of
               Inl err \<Rightarrow>
                 (fallbackParagraph (recipientResearch r),
                  st\<lparr>logs := logs st @ [OpenAIError (recipientName r) err]\<rparr>)
             | Inr para \<Rightarrow> (para, st));
          (subject, body) = generateEmailBody (recipientName r) para
      in dispatch w i r subject body st)"

text \<open>
  Lines 98-144: the loop over the rows, \<open>i\<close> being the index of the first row of the
  list. Rows before \<open>startIndex\<close> are passed over, the loop ends at \<open>endIndex\<close>.
\<close>

fun rowLoop :: "world \<Rightarrow> int \<Rightarrow> int \<Rightarrow> nat \<Rightarrow> string list list \<Rightarrow> run \<Rightarrow> run" where
  "rowLoop w startIndex endIndex i [] st = st"
| "rowLoop w startIndex endIndex i (row # rows) st =
     (if int i < startIndex then rowLoop w startIndex endIndex (Suc i) rows st
      else if int i \<ge> endIndex then st
      else
        (case extractRow row of
           None \<Rightarrow> rowLoop w startIndex endIndex (Suc i) rows st
         | Some r \<Rightarrow> rowLoop w startIndex endIndex (Suc i) rows (processRecipient w i r st)))"

text \<open>
  The result of a run that reaches its end: the final state of the loop and the data
  passed to \<open>os.WriteFile\<close> for the progress file (line 151; the error of that call is
  discarded by the program).
\<close>

record outcome =
  final :: run
  written :: string

text \<open>
  \<open>generateDrafts\<close> (lines 54-156); \<open>Inl\<close> is a returned error. The three summary
  lines it logs (the window, the total, the saved index) are not part of the model.
\<close>

definition generateDrafts :: "world \<Rightarrow> error + outcome" where
  "generateDrafts w =
     (case OpenFile w excelPath of
        Inl err \<Rightarrow> Inl (Errorf ''open excel: '' (Some err))
      | Inr f \<Rightarrow>
          (case f sheetName of
             Inl err \<Rightarrow> Inl (Errorf ''read rows: '' (Some err))
           | Inr rows \<Rightarrow>
               if length rows \<le> 1 then Inl (Errorf ''no data rows found'' None)
               else
                 (let startIndex = loadStart (ReadProgress w progressFile);
                      endIndex = endIndexOf startIndex maxDrafts
                  in case GmailService w of
                       Some err \<Rightarrow> Inl (Errorf ''gmail auth: '' (Some err))
                     | None \<Rightarrow>
                         if Getenv w ''OPENAI_API_KEY'' = []
                         then Inl (Errorf ''OPENAI_API_KEY not set'' None)
                         else
                           (let st = rowLoop w startIndex endIndex 0 rows initRun;
                                newProgress = newProgressOf endIndex (int (length rows))
                            in Inr \<lparr>final = st, written = Sprintf_d newProgress\<rparr>))))"

section \<open>The variant with a mode and a random subject (second program of part 001)\<close>

text \<open>The constant \<open>scholarshipType\<close> of this program (line 516 of the part).\<close>

definition scholarshipType :: string where
  "scholarshipType = ''CSC Scholarship''"

text \<open>
  \<open>getRandomSubject\<close> (lines 733-748 of the part): the subject at the index \<open>k\<close> drawn
  from a generator seeded with the current time.
\<close>

definition subjects :: "string list" where
  "subjects =
     [''Request for Master's Supervision (September 2026 Intake)'',
      ''Prospective Master's Student Interested in Your Research (2026 Intake)'',
      ''Supervision Inquiry for Master's Program (Fall 2026)'',
      ''Seeking Master's Supervision at Your Research Group (2026)'',
      ''Application for Master's Supervision - September 2026'',
      ''Interest in Joining Your Research Group for Master's 2026'',
      ''Inquiry Regarding Master's Supervision (2026 Admission)'',
      ''Exploring Master's Research Opportunities with You (2026)'',
      ''Request to Pursue Master's Studies Under Your Guidance (2026)'',
      ''Potential Master's Student Interested in Your Research Work'']"

definition getRandomSubject :: "nat \<Rightarrow> string" where
  "getRandomSubject k = subjects ! k"

text \<open>
  \<open>generateEmail\<close> (lines 660-731 of the part), given the API's answer \<open>resp\<close> and the
  drawn index \<open>k\<close>; the result is (subject, body, error). On an error of the API, and also
  when the API returns no choice, a line is logged and the API's error (none in the second
  case) is returned with empty strings.
\<close>

definition generateEmail ::
  "error + string list \<Rightarrow> nat \<Rightarrow> string \<Rightarrow> string \<Rightarrow> string \<Rightarrow> run
     \<Rightarrow> (string \<times> string \<times> error option) \<times> run" where
  "generateEmail resp k profName researchText mode st =
     (let err = (case resp of Inl e \<Rightarrow> Some e | Inr _ \<Rightarrow> None);
          choices = (case resp of Inl _ \<Rightarrow> [] | Inr cs \<Rightarrow> cs)
      in if err \<noteq> None \<or> length choices = 0
         then (([], [], err), st\<lparr>logs := logs st @ [TopicExtractionFailed profName err]\<rparr>)
         else
           (let researchTopics = TrimSpace (hd choices);
                researchTopics = (if researchTopics = []
                                  then ''computer science and related technologies''
                                  else researchTopics);
                researchPlan = concat [
     ''\<newline>'',
     ''My intended research plan involves exploring distributed systems and backend technologies using Go,\<newline>'',
     ''with an emphasis on building efficient, reliable, and scalable software systems.\<newline>'',
     ''I am also interested in integrating AI-based optimization or automation approaches into software engineering problems.\<newline>''];
                intro = concat [
          ''\<newline>'',
          ''Respected Professor '',
          profName,
          '',<br><br>\<newline>'',
          ''I hope you are doing well.''];
                intro = (if mode = ''followup'' then concat [
          ''\<newline>'',
          ''Respected Professor '',
          profName,
          '',<br><br>\<newline>'',
          ''I hope you are doing well. I wanted to kindly follow up on my previous email regarding the possibility of pursuing a Master's degree under your supervision.'']
                         else intro);
                subject = getRandomSubject k;
                body = concat [
      ''\<newline>'',
      ''<html>\<newline>'',
      ''<body>\<newline>'',
      intro,
      ''<br><br>\<newline>'',
      ''\<newline>'',
      ''I am <b>Usama Shoukat</b> from Pakistan, and I have completed my Bachelor's in Computer Science\<newline>'',
      ''with a CGPA of <b>3.51/4.00</b> from Government College University Faisalabad, a well-known institution in Pakistan.<br><br>\<newline>'',
      ''\<newline>'',
      ''I came across your research profile and was deeply impressed by your work in <b>'',
      researchTopics,
      ''</b>.\<newline>'',
      ''I find your research directions highly relevant to my academic background and interests.<br><br>\<newline>'',
      ''\<newline>'',
      researchPlan,
      ''<br><br>\<newline>'',
      ''\<newline>'',
      ''I am highly motivated to pursue a Master's degree under your supervision and intend to apply for the <b>'',
      scholarshipType,
      ''</b>\<newline>'',
      ''(or any equivalent scholarship offered by your institution).<br><br>\<newline>'',
      ''\<newline>'',
      ''If you find my profile suitable, it would be an honor to discuss the possibility of joining your research group.\<newline>'',
      ''I have attached my CV for your review.<br><br>\<newline>'',
      ''\<newline>'',
      ''Thank you very much for your time and consideration.<br><br>\<newline>'',
      ''\<newline>'',
      ''Best regards,<br>\<newline>'',
      ''<b>Usama Shoukat</b><br>\<newline>'',
      ''WeChat ID: UsamaShoukatCS<br>\<newline>'',
      ''</body>\<newline>'',
      ''</html>\<newline>'']
            in ((subject, body, None), st)))"

text \<open>
  Lines 633-646 of the part: the body of the loop for a row that yields a recipient. A
  failed generation is logged and the recipient is passed over.
\<close>

definition processRecipientMode :: "world \<Rightarrow> string \<Rightarrow> nat \<Rightarrow> recipient \<Rightarrow> run \<Rightarrow> run" where
  "processRecipientMode w mode i r st =
     (case generateEmail (CreateChatCompletion w i) (Intn w i) (recipientName r) (recipientResearch r) mode st of
        ((subject, body, Some err), st') \<Rightarrow>
          st'\<lparr>logs := logs st' @ [EmailGenerationFailed (recipientName r) err]\<rparr>
      | ((subject, body, None), st') \<Rightarrow> dispatch w i r subject body st')"

text \<open>Lines 604-647 of the part: the loop, as in main.go but for the generation step.\<close>

fun rowLoopMode ::
  "world \<Rightarrow> string \<Rightarrow> int \<Rightarrow> int \<Rightarrow> nat \<Rightarrow> string list list \<Rightarrow> run \<Rightarrow> run" where
  "rowLoopMode w mode startIndex endIndex i [] st = st"
| "rowLoopMode w mode startIndex endIndex i (row # rows) st =
     (if int i < startIndex then rowLoopMode w mode startIndex endIndex (Suc i) rows st
      else if int i \<ge> endIndex then st
      else
        (case extractRow row of
           None \<Rightarrow> rowLoopMode w mode startIndex endIndex (Suc i) rows st
         | Some r \<Rightarrow>
             rowLoopMode w mode startIndex endIndex (Suc i) rows
               (processRecipientMode w mode i r st)))"

section \<open>A sample sheet and sample collaborators\<close>

text \<open>
  A sheet with a header row and two data rows, and collaborators for it: the
  text-generation call fails for row 1, the attachment cannot be read while row 2 is
  processed, and the mail service accepts every draft. The progress file is a parameter.
\<close>

definition sampleRows :: "string list list" where
  "sampleRows =
     [[''No'', ''Name:Email'', ''Research''],
      [''1'', ''Ada Lovelace : ada@example.org'', ''compilers''],
      [''2'', ''Alan Turing : alan@example.org'', ''computability'']]"

definition sampleWorld :: "string option \<Rightarrow> world" where
  "sampleWorld progress =
     \<lparr>OpenFile = (\<lambda>path. Inr (\<lambda>sheet. Inr sampleRows)),
      ReadProgress = (\<lambda>path. progress),
      GmailService = None,
      Getenv = (\<lambda>key. ''sk-test''),
      CreateChatCompletion =
        (\<lambda>i. if i = 1 then Inl (External ''timeout'') else Inr ['' Computability is central. '']),
      ReadAttachment =
        (\<lambda>i path. if i = 2 then Inl (External ''no such file'') else Inr ''%PDF-1.4''),
      TypeByExtension = (\<lambda>ext. ''application/pdf''),
      DraftsCreate = (\<lambda>i raw. None),
      Intn = (\<lambda>i. i)\<rparr>"

definition ada :: recipient where
  "ada = \<lparr>recipientName = ''Ada Lovelace'', recipientEmail = ''ada@example.org'',
          recipientResearch = ''compilers''\<rparr>"

definition alan :: recipient where
  "alan = \<lparr>recipientName = ''Alan Turing'', recipientEmail = ''alan@example.org'',
           recipientResearch = ''computability''\<rparr>"

text \<open>Sixty bytes of attachment data; their encoding fills one line and part of a second.\<close>

definition sampleData :: string where
  "sampleData = ''Curriculum vitae: backend systems, Golang, distributed data.''"

section \<open>Properties of the batch cursor\<close>

subsection \<open>Printing and scanning decimal integers\<close>

lemma isDigit_digitChar: "d < 10 \<Longrightarrow> isDigit (digitChar d)"
  by (simp add: isDigit_def digitChar_def)

lemma digitVal_digitChar: "d < 10 \<Longrightarrow> digitVal (digitChar d) = int d"
  by (simp add: digitVal_def digitChar_def)

lemma digitsVal_snoc: "digitsVal (ds @ [c]) = 10 * digitsVal ds + digitVal c"
  by (simp add: digitsVal_def)

lemma natDigits_digits: "\<forall>c \<in> set (natDigits n). isDigit c"
proof (induction n rule: natDigits.induct)
  case (1 n)
  show ?case
  proof (cases "n < 10")
    case True
    then show ?thesis by (simp add: natDigits.simps [of n] isDigit_digitChar)
  next
    case False
    with 1 show ?thesis by (simp add: natDigits.simps [of n] isDigit_digitChar)
  qed
qed

lemma natDigits_nonempty: "natDigits n \<noteq> []"
  by (simp add: natDigits.simps [of n])

lemma digitsVal_natDigits: "digitsVal (natDigits n) = int n"
proof (induction n rule: natDigits.induct)
  case (1 n)
  show ?case
  proof (cases "n < 10")
    case True
    then show ?thesis
      by (simp add: natDigits.simps [of n] digitsVal_def digitVal_digitChar)
  next
    case False
    with 1 have "digitsVal (natDigits (n div 10)) = int (n div 10)" by simp
    with False show ?thesis
      by (simp add: natDigits.simps [of n] digitsVal_snoc digitVal_digitChar zdiv_int zmod_int)
  qed
qed

lemma leadingSpace_notspace:
  assumes "c \<notin> set (map hd spaceRunes)"
  shows "leadingSpace (c # cs) = None"
proof -
  have "\<not> prefix r (c # cs)" if "r \<in> set spaceRunes" for r
  proof (cases r)
    case Nil
    with that show ?thesis using spaceRunes_nonempty by blast
  next
    case (Cons a as)
    with that assms have "a \<noteq> c" by force
    with Cons show ?thesis by simp
  qed
  then show ?thesis by (simp add: leadingSpace_def find_None_iff)
qed

lemma leadingSpace_digit: "isDigit c \<Longrightarrow> leadingSpace (c # cs) = None"
  by (rule leadingSpace_notspace) (auto simp: isDigit_def spaceRunes_def)

lemma leadingSpace_minus: "leadingSpace (CHR ''-'' # cs) = None"
  by (rule leadingSpace_notspace) (simp add: spaceRunes_def)

lemma isDigit_not_sign: "isDigit c \<Longrightarrow> c \<noteq> CHR ''-'' \<and> c \<noteq> CHR ''+''"
  by (auto simp: isDigit_def)

lemma takeWhile_digits_rest:
  "\<forall>c \<in> set ds. isDigit c \<Longrightarrow> rest = [] \<or> \<not> isDigit (hd rest) \<Longrightarrow>
   takeWhile isDigit (ds @ rest) = ds"
  by (cases rest) (auto simp: takeWhile_append2 takeWhile_eq_all_conv)

lemma Sscanf_d_natDigits:
  assumes "int n \<le> maxInt" and "rest = [] \<or> \<not> isDigit (hd rest)"
  shows "Sscanf_d (natDigits n @ rest) = Some (int n)"
proof -
  obtain c cs where cs: "natDigits n = c # cs"
    using natDigits_nonempty [of n] by (cases "natDigits n") auto
  have dig: "\<forall>c \<in> set (natDigits n). isDigit c" by (rule natDigits_digits)
  with cs have c: "isDigit c" by simp
  have sk: "skipSpace (natDigits n @ rest) = Some (natDigits n @ rest)"
    using c by (simp add: cs skipSpace.simps [of "c # cs @ rest"] leadingSpace_digit)
  have sg: "acceptSign (natDigits n @ rest) = (False, natDigits n @ rest)"
    using isDigit_not_sign [OF c] by (simp add: cs acceptSign_def)
  have tw: "takeWhile isDigit (natDigits n @ rest) = natDigits n"
    using dig assms(2) by (rule takeWhile_digits_rest)
  show ?thesis
    using assms(1)
    by (simp add: Sscanf_d_def sk sg tw natDigits_nonempty digitsVal_natDigits minInt_def)
qed

lemma Sscanf_d_neg_natDigits:
  assumes "0 < n" "- int n \<ge> minInt" and "rest = [] \<or> \<not> isDigit (hd rest)"
  shows "Sscanf_d (CHR ''-'' # natDigits n @ rest) = Some (- int n)"
proof -
  have dig: "\<forall>c \<in> set (natDigits n). isDigit c" by (rule natDigits_digits)
  have sk: "skipSpace (CHR ''-'' # natDigits n @ rest) = Some (CHR ''-'' # natDigits n @ rest)"
    by (simp add: skipSpace.simps [of "CHR ''-'' # natDigits n @ rest"] leadingSpace_minus)
  have sg: "acceptSign (CHR ''-'' # natDigits n @ rest) = (True, natDigits n @ rest)"
    by (simp add: acceptSign_def)
  have tw: "takeWhile isDigit (natDigits n @ rest) = natDigits n"
    using dig assms(3) by (rule takeWhile_digits_rest)
  show ?thesis
    using assms(1,2)
    by (simp add: Sscanf_d_def sk sg tw natDigits_nonempty digitsVal_natDigits maxInt_def)
qed

lemma Sscanf_d_Sprintf_d:
  assumes "minInt \<le> n" "n \<le> maxInt" and "rest = [] \<or> \<not> isDigit (hd rest)"
  shows "Sscanf_d (Sprintf_d n @ rest) = Some n"
proof (cases "n < 0")
  case True
  then have "0 < nat (- n)" "- int (nat (- n)) \<ge> minInt" using assms(1) by simp_all
  from Sscanf_d_neg_natDigits [OF this assms(3)] True show ?thesis
    by (simp add: Sprintf_d_def)
next
  case False
  then have "int (nat n) \<le> maxInt" using assms(2) by simp
  from Sscanf_d_natDigits [OF this assms(3)] False show ?thesis
    by (simp add: Sprintf_d_def)
qed

lemma wrapInt_id: "minInt \<le> x \<Longrightarrow> x \<le> maxInt \<Longrightarrow> wrapInt x = x"
  by (simp add: wrapInt_def minInt_def maxInt_def)

subsection \<open>The batch window\<close>

text \<open>
  Claim C1, as stated, fails: the saved end of the window is
  \<open>min (start + batchSize) totalRows\<close>, so when the loaded start index is larger than the
  number of rows the end is smaller than the start. With start 100, batch size 30 and 10
  rows the end is 10.
\<close>

theorem computeWindow_end_before_start:
  "\<not> fst (computeWindow 100 30 10) \<le> snd (computeWindow 100 30 10)"
  by (simp add: computeWindow_def endIndexOf_def newProgressOf_def wrapInt_def)

text \<open>
  Claim C1, amended: for every start, batch size and number of rows such that
  \<open>start + batchSize\<close> is representable as an \<open>int\<close>, the window computation returns
  \<open>end = min (start + batchSize) totalRows\<close>; and for a batch size that is not negative,
  \<open>end \<ge> start\<close> holds exactly when the start index does not exceed the number of rows.
\<close>

theorem computeWindow_min:
  assumes "minInt \<le> startIndex + batchSize" and "startIndex + batchSize \<le> maxInt"
  shows "snd (computeWindow startIndex batchSize totalRows) = min (startIndex + batchSize) totalRows
       \<and> (0 \<le> batchSize \<longrightarrow>
            (startIndex \<le> snd (computeWindow startIndex batchSize totalRows)
               \<longleftrightarrow> startIndex \<le> totalRows))"
  using assms by (auto simp: computeWindow_def endIndexOf_def newProgressOf_def wrapInt_id)

theorem computeWindow_min_witness:
  "snd (computeWindow 1 30 10) = 10 \<and> 1 \<le> snd (computeWindow 1 30 10)
   \<and> snd (computeWindow 100 30 10) = 10"
  using computeWindow_min [of 1 30 10] computeWindow_min [of 100 30 10]
  by (simp add: minInt_def maxInt_def)

subsection \<open>Loading the start index\<close>

text \<open>
  Claim C6: a progress file that holds the decimal form of a positive integer not larger
  than the number of rows, alone or followed by anything that does not start with a digit
  (a newline, say), loads as exactly that integer; a missing file, and a file from which no
  integer can be scanned, load as the default 1. Loading has no error result.
\<close>

theorem loadStart_valid_or_default:
  "(0 < n \<and> n \<le> totalRows \<and> totalRows \<le> maxInt \<and> (rest = [] \<or> \<not> isDigit (hd rest)) \<longrightarrow>
      loadStart (Some (Sprintf_d n @ rest)) = n)
   \<and> loadStart None = 1
   \<and> (Sscanf_d data = None \<longrightarrow> loadStart (Some data) = 1)"
proof (intro conjI impI)
  assume "0 < n \<and> n \<le> totalRows \<and> totalRows \<le> maxInt \<and> (rest = [] \<or> \<not> isDigit (hd rest))"
  then have "Sscanf_d (Sprintf_d n @ rest) = Some n"
    by (intro Sscanf_d_Sprintf_d) (auto simp: minInt_def)
  then show "loadStart (Some (Sprintf_d n @ rest)) = n" by (simp add: loadStart_def)
next
  show "loadStart None = 1" by (simp add: loadStart_def)
next
  assume "Sscanf_d data = None"
  then show "loadStart (Some data) = 1" by (simp add: loadStart_def)
qed

theorem loadStart_valid_or_default_witness:
  "loadStart (Some (''17'' @ [CHR 0x0A])) = 17 \<and> loadStart None = 1
   \<and> loadStart (Some ''next'') = 1"
proof -
  have a: "Sprintf_d 17 = ''17''" by code_simp
  have b: "Sscanf_d ''next'' = None" by code_simp
  have c: "(0::int) < 17 \<and> (17::int) \<le> 40 \<and> 40 \<le> maxInt
           \<and> ([CHR 0x0A] = [] \<or> \<not> isDigit (hd [CHR 0x0A]))"
    by (simp add: maxInt_def isDigit_def)
  show ?thesis
    using loadStart_valid_or_default [of 17 40 "[CHR 0x0A]" "''next''"] a b c by simp
qed

section \<open>Properties of the row extractor\<close>

lemma SplitN2_sep: "sep \<notin> set a \<Longrightarrow> SplitN2 (a @ sep # b) sep = [a, b]"
  by (induction a) (auto simp: SplitN2_def)

lemma SplitN2_nosep: "sep \<notin> set s \<Longrightarrow> SplitN2 s sep = [s]"
  by (simp add: SplitN2_def)

lemma extractRow_split:
  assumes "3 \<le> length row" and "TrimSpace (row ! 1) = a @ CHR '':'' # b" and "CHR '':'' \<notin> set a"
  shows "extractRow row =
          (if TrimSpace (row ! 2) = [] \<or> TrimSpace a = [] \<or> TrimSpace b = [] then None
           else Some \<lparr>recipientName = TrimSpace a, recipientEmail = TrimSpace b,
                      recipientResearch = TrimSpace (row ! 2)\<rparr>)"
  using assms by (auto simp: extractRow_def SplitN2_sep Let_def)

lemma extractRow_nosplit:
  assumes "CHR '':'' \<notin> set (TrimSpace (row ! 1))"
  shows "extractRow row = None"
  using assms by (simp add: extractRow_def SplitN2_nosep Let_def)

text \<open>
  Claim C7: a row yields a recipient only if it has at least 3 columns, its trimmed
  composite field and its trimmed research field are not empty, and the composite field
  splits at its first colon into two parts that are not empty after trimming; the
  recipient is then made of the two trimmed parts and the trimmed research field. A row
  with fewer than 3 columns, and a row whose name or email is empty after the split,
  yields no recipient.
\<close>

theorem extractRow_Some_iff:
  "(extractRow row = Some r \<longleftrightarrow>
      3 \<le> length row \<and> TrimSpace (row ! 1) \<noteq> [] \<and> TrimSpace (row ! 2) \<noteq> [] \<and>
      (\<exists>a b. TrimSpace (row ! 1) = a @ CHR '':'' # b \<and> CHR '':'' \<notin> set a \<and>
             TrimSpace a \<noteq> [] \<and> TrimSpace b \<noteq> [] \<and>
             r = \<lparr>recipientName = TrimSpace a, recipientEmail = TrimSpace b,
                  recipientResearch = TrimSpace (row ! 2)\<rparr>))
   \<and> (length row < 3 \<longrightarrow> extractRow row = None)
   \<and> (TrimSpace (row ! 1) = a' @ CHR '':'' # b' \<and> CHR '':'' \<notin> set a' \<and>
        (TrimSpace a' = [] \<or> TrimSpace b' = []) \<longrightarrow> extractRow row = None)"
proof (intro conjI impI)
  show "extractRow row = None" if "length row < 3"
    using that by (simp add: extractRow_def)
next
  assume h: "TrimSpace (row ! 1) = a' @ CHR '':'' # b' \<and> CHR '':'' \<notin> set a' \<and>
        (TrimSpace a' = [] \<or> TrimSpace b' = [])"
  show "extractRow row = None"
  proof (cases "3 \<le> length row")
    case True
    with h show ?thesis by (auto simp: extractRow_split)
  next
    case False
    then show ?thesis by (simp add: extractRow_def)
  qed
next
  show "extractRow row = Some r \<longleftrightarrow>
      3 \<le> length row \<and> TrimSpace (row ! 1) \<noteq> [] \<and> TrimSpace (row ! 2) \<noteq> [] \<and>
      (\<exists>a b. TrimSpace (row ! 1) = a @ CHR '':'' # b \<and> CHR '':'' \<notin> set a \<and>
             TrimSpace a \<noteq> [] \<and> TrimSpace b \<noteq> [] \<and>
             r = \<lparr>recipientName = TrimSpace a, recipientEmail = TrimSpace b,
                  recipientResearch = TrimSpace (row ! 2)\<rparr>)" (is "?L \<longleftrightarrow> ?R")
  proof
    assume L: ?L
    have len: "3 \<le> length row"
      using L by (cases "length row < 3") (simp_all add: extractRow_def)
    have colon: "CHR '':'' \<in> set (TrimSpace (row ! 1))"
      using L extractRow_nosplit [of row] by auto
    then obtain a b where ab: "TrimSpace (row ! 1) = a @ CHR '':'' # b" "CHR '':'' \<notin> set a"
      by (auto dest: split_list_first)
    from L show ?R
      unfolding extractRow_split [OF len ab]
      using len ab by (auto split: if_splits)
  next
    assume ?R
    then show ?L by (auto simp: extractRow_split)
  qed
qed

theorem extractRow_Some_iff_witness:
  "extractRow [''7'', '' Ada Lovelace : ada@example.org '', ''compilers''] =
     Some \<lparr>recipientName = ''Ada Lovelace'', recipientEmail = ''ada@example.org'',
           recipientResearch = ''compilers''\<rparr>
   \<and> extractRow [''7'', ''Ada Lovelace : ada@example.org''] = None
   \<and> extractRow [''7'', '' : ada@example.org'', ''compilers''] = None"
proof -
  let ?row = "[''7'', '' Ada Lovelace : ada@example.org '', ''compilers'']"
  let ?r = "\<lparr>recipientName = ''Ada Lovelace'', recipientEmail = ''ada@example.org'',
           recipientResearch = ''compilers''\<rparr>"
  have t1: "TrimSpace '' Ada Lovelace : ada@example.org '' = ''Ada Lovelace '' @ CHR '':'' # '' ada@example.org''"
    by code_simp
  have t2: "TrimSpace ''compilers'' = ''compilers''" by code_simp
  have t3: "TrimSpace ''Ada Lovelace '' = ''Ada Lovelace''" by code_simp
  have t4: "TrimSpace '' ada@example.org'' = ''ada@example.org''" by code_simp
  have t5: "TrimSpace '' : ada@example.org'' = [] @ CHR '':'' # '' ada@example.org''" by code_simp
  have t6: "TrimSpace [] = []" by code_simp
  have c: "CHR '':'' \<notin> set ''Ada Lovelace ''" by simp
  have rhs: "3 \<le> length ?row \<and> TrimSpace (?row ! 1) \<noteq> [] \<and> TrimSpace (?row ! 2) \<noteq> [] \<and>
      (\<exists>a b. TrimSpace (?row ! 1) = a @ CHR '':'' # b \<and> CHR '':'' \<notin> set a \<and>
             TrimSpace a \<noteq> [] \<and> TrimSpace b \<noteq> [] \<and>
             ?r = \<lparr>recipientName = TrimSpace a, recipientEmail = TrimSpace b,
                  recipientResearch = TrimSpace (?row ! 2)\<rparr>)"
  proof (intro conjI exI)
    show "TrimSpace (?row ! 1) = ''Ada Lovelace '' @ CHR '':'' # '' ada@example.org''"
      using t1 by simp
    show "TrimSpace (?row ! 1) \<noteq> []" using t1 by simp
  qed (simp_all add: t2 t3 t4)
  have 1: "extractRow ?row = Some ?r"
    using extractRow_Some_iff [of ?row ?r "[]" "[]", THEN conjunct1, THEN iffD2, OF rhs] .
  have 2: "extractRow [''7'', ''Ada Lovelace : ada@example.org''] = None"
    using extractRow_Some_iff [of "[''7'', ''Ada Lovelace : ada@example.org'']" ?r "[]" "[]",
             THEN conjunct2, THEN conjunct1]
    by simp
  have 3: "extractRow [''7'', '' : ada@example.org'', ''compilers''] = None"
    using extractRow_Some_iff [of "[''7'', '' : ada@example.org'', ''compilers'']" ?r "[]" "'' ada@example.org''",
             THEN conjunct2, THEN conjunct2] t5 t6
    by simp
  from 1 2 3 show ?thesis by (intro conjI)
qed

section \<open>Properties of a run\<close>

subsection \<open>The draft step\<close>

lemma buildRawEmail_unreadable:
  "ReadAttachment w i f = Inl err \<Longrightarrow> buildRawEmail w i to subject body f = Inl err"
  by (simp add: buildRawEmail_def)

lemma buildRawEmail_readable:
  "ReadAttachment w i f = Inr data \<Longrightarrow> \<exists>raw. buildRawEmail w i to subject body f = Inr raw"
  by (simp add: buildRawEmail_def Let_def)

lemma createDraft_unreadable:
  "ReadAttachment w i f = Inl err \<Longrightarrow>
   createDraft w i to subject body f st =
     (Some (Errorf ''build email: '' (Some err)), st\<lparr>calls := calls st @ [(to, subject, body)]\<rparr>)"
  by (simp add: createDraft_def Let_def buildRawEmail_unreadable)

lemma createDraft_readable:
  assumes "ReadAttachment w i f = Inr data"
  shows "\<exists>raw. createDraft w i to subject body f st =
     (DraftsCreate w i raw,
      st\<lparr>calls := calls st @ [(to, subject, body)], submitted := submitted st @ [raw]\<rparr>)"
proof -
  from buildRawEmail_readable [OF assms] obtain raw
    where "buildRawEmail w i to subject body f = Inr raw" by blast
  then have "createDraft w i to subject body f st =
     (DraftsCreate w i raw,
      st\<lparr>calls := calls st @ [(to, subject, body)], submitted := submitted st @ [raw]\<rparr>)"
    by (simp add: createDraft_def Let_def)
  then show ?thesis by (rule exI)
qed

lemma createDraft_state:
  "calls (snd (createDraft w i to subject body f st)) = calls st @ [(to, subject, body)]
   \<and> count (snd (createDraft w i to subject body f st)) = count st
   \<and> logs (snd (createDraft w i to subject body f st)) = logs st"
  by (simp add: createDraft_def Let_def split: sum.splits)

lemma dispatch_calls:
  "calls (dispatch w i r subject body st) = calls st @ [(recipientEmail r, subject, body)]"
  using createDraft_state [of w i "recipientEmail r" subject body attachmentPath st]
  by (auto simp: dispatch_def split: prod.splits option.splits)

lemma dispatch_count:
  "count (dispatch w i r subject body st) \<le> Suc (count st)"
  using createDraft_state [of w i "recipientEmail r" subject body attachmentPath st]
  by (auto simp: dispatch_def split: prod.splits option.splits)

lemma dispatch_unreadable:
  "ReadAttachment w i attachmentPath = Inl err \<Longrightarrow>
   dispatch w i r subject body st =
     st\<lparr>calls := calls st @ [(recipientEmail r, subject, body)],
        logs := logs st @ [DraftCreationFailed (recipientName r) (Errorf ''build email: '' (Some err))]\<rparr>"
  by (simp add: dispatch_def createDraft_unreadable)

lemma dispatch_created:
  assumes "ReadAttachment w i attachmentPath = Inr data" and "\<forall>raw. DraftsCreate w i raw = None"
  shows "count (dispatch w i r subject body st) = Suc (count st)"
proof -
  from createDraft_readable [OF assms(1)] obtain raw where
    "createDraft w i (recipientEmail r) subject body attachmentPath st =
     (DraftsCreate w i raw,
      st\<lparr>calls := calls st @ [(recipientEmail r, subject, body)], submitted := submitted st @ [raw]\<rparr>)"
    by blast
  with assms(2) show ?thesis by (simp add: dispatch_def)
qed

subsection \<open>One recipient\<close>

lemma processRecipient_dispatch:
  "processRecipient w i r st =
     (case generateResearchParagraph (CreateChatCompletion w i) of
        Inl err \<Rightarrow>
          dispatch w i r (fst (generateEmailBody (recipientName r) (fallbackParagraph (recipientResearch r))))
            (snd (generateEmailBody (recipientName r) (fallbackParagraph (recipientResearch r))))
            (st\<lparr>logs := logs st @ [OpenAIError (recipientName r) err]\<rparr>)
      | Inr para \<Rightarrow>
          dispatch w i r (fst (generateEmailBody (recipientName r) para))
            (snd (generateEmailBody (recipientName r) para)) st)"
  by (simp add: processRecipient_def split: sum.splits prod.splits)

lemma processRecipient_calls:
  "calls (processRecipient w i r st) =
     calls st @
       [(recipientEmail r,
         generateEmailBody (recipientName r)
           (case generateResearchParagraph (CreateChatCompletion w i) of
              Inl err \<Rightarrow> fallbackParagraph (recipientResearch r)
            | Inr para \<Rightarrow> para))]"
  by (simp add: processRecipient_dispatch dispatch_calls split: sum.splits)

lemma processRecipient_count: "count (processRecipient w i r st) \<le> Suc (count st)"
  using dispatch_count [of w i r _ _ st]
        dispatch_count [of w i r _ _ "st\<lparr>logs := logs st @ [OpenAIError (recipientName r) err]\<rparr>" for err]
  by (simp add: processRecipient_dispatch split: sum.splits)

lemma processRecipient_created:
  assumes "ReadAttachment w i attachmentPath = Inr data" and "\<forall>raw. DraftsCreate w i raw = None"
  shows "count (processRecipient w i r st) = Suc (count st)"
  using dispatch_created [OF assms]
  by (simp add: processRecipient_dispatch split: sum.splits)

lemma processRecipient_unreadable:
  assumes "ReadAttachment w i attachmentPath = Inl err"
  shows "count (processRecipient w i r st) = count st
       \<and> submitted (processRecipient w i r st) = submitted st"
  using assms by (simp add: processRecipient_dispatch dispatch_unreadable split: sum.splits)

lemma sublist_concat_mem: "p \<in> set xss \<Longrightarrow> sublist p (concat xss)"
proof -
  assume "p \<in> set xss"
  then obtain as bs where "xss = as @ p # bs" by (auto dest: split_list)
  then have "concat xss = concat as @ p @ concat bs" by simp
  then show ?thesis by (simp add: sublist_appendI)
qed

lemma generateEmailBody_contains: "sublist researchPara (snd (generateEmailBody profName researchPara))"
  unfolding generateEmailBody_def snd_conv
  by (rule sublist_concat_mem) simp

lemma generateResearchParagraph_fails:
  "CreateChatCompletion w i = Inl err \<or> CreateChatCompletion w i = Inr [] \<Longrightarrow>
   \<exists>e. generateResearchParagraph (CreateChatCompletion w i) = Inl e"
  by (auto simp: generateResearchParagraph_def)

lemma generateEmail_error:
  "generateEmail (Inl err) k profName researchText mode st =
     (([], [], Some err), st\<lparr>logs := logs st @ [TopicExtractionFailed profName (Some err)]\<rparr>)"
  by (simp add: generateEmail_def Let_def)

lemma generateEmail_subject:
  "fst (fst (generateEmail (Inr (c # cs)) k profName researchText mode st)) = getRandomSubject k"
  by (simp add: generateEmail_def Let_def)

lemma generateEmail_body_draw:
  "snd (fst (generateEmail resp k profName researchText mode st))
     = snd (fst (generateEmail resp k' profName researchText mode st))"
  by (simp add: generateEmail_def Let_def)

lemma processRecipientMode_error:
  "CreateChatCompletion w i = Inl err \<Longrightarrow>
   processRecipientMode w mode i r st =
     st\<lparr>logs := logs st @ [TopicExtractionFailed (recipientName r) (Some err),
                            EmailGenerationFailed (recipientName r) err]\<rparr>"
  by (simp add: processRecipientMode_def generateEmail_error)

subsection \<open>The loop and the run\<close>

lemma rowLoop_bounds:
  "count (rowLoop w s e i rows st) \<le> count st + nat (e - max s (int i))
   \<and> length (calls (rowLoop w s e i rows st)) \<le> length (calls st) + nat (e - max s (int i))"
proof (induction rows arbitrary: i st)
  case Nil
  then show ?case by simp
next
  case (Cons row rows)
  show ?case
  proof (cases "int i < s")
    case True
    then have "max s (int (Suc i)) = max s (int i)" by simp
    with Cons [of "Suc i" st] True show ?thesis by simp
  next
    case False
    show ?thesis
    proof (cases "int i \<ge> e")
      case True
      with False show ?thesis by simp
    next
      case inwin: False
      then have step: "Suc (nat (e - max s (int (Suc i)))) = nat (e - max s (int i))"
        using False by (simp add: max_def)
      show ?thesis
      proof (cases "extractRow row")
        case None
        with Cons [of "Suc i" st] False inwin step show ?thesis by simp
      next
        case (Some r)
        have "count (processRecipient w i r st) \<le> Suc (count st)"
          by (rule processRecipient_count)
        moreover have "length (calls (processRecipient w i r st)) = Suc (length (calls st))"
          by (simp add: processRecipient_calls)
        ultimately show ?thesis
          using Cons [of "Suc i" "processRecipient w i r st"] False inwin step Some by simp
      qed
    qed
  qed
qed

lemma rowLoop_before_start:
  "int (i + length rows) \<le> s \<Longrightarrow> rowLoop w s e i rows st = st"
  by (induction rows arbitrary: i) auto

lemma rowLoop_in_window:
  "s \<le> int i \<Longrightarrow> int i < e \<Longrightarrow> extractRow row = Some r \<Longrightarrow>
   rowLoop w s e i (row # rows) st = rowLoop w s e (Suc i) rows (processRecipient w i r st)"
  by simp

lemma rowLoopMode_in_window:
  "s \<le> int i \<Longrightarrow> int i < e \<Longrightarrow> extractRow row = Some r \<Longrightarrow>
   rowLoopMode w mode s e i (row # rows) st =
     rowLoopMode w mode s e (Suc i) rows (processRecipientMode w mode i r st)"
  by simp

lemma loadStart_range: "minInt \<le> loadStart file \<and> loadStart file \<le> maxInt"
  by (auto simp: loadStart_def Sscanf_d_def Let_def minInt_def maxInt_def
           split: option.splits prod.splits if_splits)

lemma wrapInt_le: "minInt \<le> x \<Longrightarrow> wrapInt x \<le> x"
proof -
  assume "minInt \<le> x"
  then have "0 \<le> x + 9223372036854775808" by (simp add: minInt_def)
  then have "(x + 9223372036854775808) mod 18446744073709551616 \<le> x + 9223372036854775808"
    by (rule zmod_le_nonneg_dividend)
  then show ?thesis by (simp add: wrapInt_def)
qed

lemma endIndexOf_le: "minInt \<le> s \<Longrightarrow> endIndexOf s maxDrafts \<le> s + maxDrafts"
  unfolding endIndexOf_def by (rule wrapInt_le) (simp add: maxDrafts_def)

lemma endIndexOf_exact:
  "minInt \<le> s \<Longrightarrow> s + maxDrafts \<le> maxInt \<Longrightarrow> endIndexOf s maxDrafts = s + maxDrafts"
  unfolding endIndexOf_def by (rule wrapInt_id) (simp_all add: maxDrafts_def)

lemma generateDrafts_Inr:
  assumes "OpenFile w excelPath = Inr f" and "f sheetName = Inr rows" and "1 < length rows"
      and "GmailService w = None" and "Getenv w ''OPENAI_API_KEY'' \<noteq> []"
  shows "generateDrafts w =
           Inr \<lparr>final = rowLoop w (loadStart (ReadProgress w progressFile))
                           (endIndexOf (loadStart (ReadProgress w progressFile)) maxDrafts)
                           0 rows initRun,
                written = Sprintf_d (newProgressOf
                           (endIndexOf (loadStart (ReadProgress w progressFile)) maxDrafts)
                           (int (length rows)))\<rparr>"
  using assms by (simp add: generateDrafts_def Let_def)

lemma generateDrafts_InrD:
  assumes "generateDrafts w = Inr out"
  shows "\<exists>f rows. OpenFile w excelPath = Inr f \<and> f sheetName = Inr rows \<and> 1 < length rows
           \<and> GmailService w = None \<and> Getenv w ''OPENAI_API_KEY'' \<noteq> []"
  using assms
  by (auto simp: generateDrafts_def Let_def split: sum.splits if_splits option.splits)

subsection \<open>The sample run\<close>

lemma sample_extract:
  "extractRow [''No'', ''Name:Email'', ''Research'']
     = Some \<lparr>recipientName = ''Name'', recipientEmail = ''Email'', recipientResearch = ''Research''\<rparr>"
  "extractRow [''1'', ''Ada Lovelace : ada@example.org'', ''compilers''] = Some ada"
  "extractRow [''2'', ''Alan Turing : alan@example.org'', ''computability''] = Some alan"
  unfolding ada_def alan_def by code_simp+

lemma sample_setup:
  "OpenFile (sampleWorld p) excelPath = Inr (\<lambda>sheet. Inr sampleRows)"
  "(\<lambda>sheet. Inr sampleRows) sheetName = Inr sampleRows"
  "1 < length sampleRows"
  "GmailService (sampleWorld p) = None"
  "Getenv (sampleWorld p) ''OPENAI_API_KEY'' \<noteq> []"
  "ReadProgress (sampleWorld p) progressFile = p"
  by (simp_all add: sampleWorld_def sampleRows_def)

lemma sample_calls:
  "CreateChatCompletion (sampleWorld p) 1 = Inl (External ''timeout'')"
  "CreateChatCompletion (sampleWorld p) 2 = Inr ['' Computability is central. '']"
  "ReadAttachment (sampleWorld p) 1 attachmentPath = Inr ''%PDF-1.4''"
  "ReadAttachment (sampleWorld p) 2 attachmentPath = Inl (External ''no such file'')"
  "\<forall>raw. DraftsCreate (sampleWorld p) i raw = None"
  by (simp_all add: sampleWorld_def)

lemma sample_loop:
  "rowLoop (sampleWorld p) 1 31 0 sampleRows initRun
     = processRecipient (sampleWorld p) 2 alan (processRecipient (sampleWorld p) 1 ada initRun)"
proof -
  have "rowLoop (sampleWorld p) 1 31 0 sampleRows initRun
      = rowLoop (sampleWorld p) 1 31 (Suc 0) (tl sampleRows) initRun"
    by (simp add: sampleRows_def)
  also have "\<dots> = rowLoop (sampleWorld p) 1 31 (Suc 1) (tl (tl sampleRows))
                    (processRecipient (sampleWorld p) 1 ada initRun)"
    by (simp add: sampleRows_def sample_extract(2))
  also have "\<dots> = rowLoop (sampleWorld p) 1 31 (Suc 2) []
                    (processRecipient (sampleWorld p) 2 alan
                       (processRecipient (sampleWorld p) 1 ada initRun))"
    by (simp add: sampleRows_def sample_extract(3) numeral_2_eq_2)
  finally show ?thesis by simp
qed

lemma sample_count: "count (rowLoop (sampleWorld p) 1 31 0 sampleRows initRun) = 1"
proof -
  have c1: "count (processRecipient (sampleWorld p) 1 ada initRun) = Suc (count initRun)"
    using sample_calls(3) sample_calls(5) by (rule processRecipient_created)
  have c2: "count (processRecipient (sampleWorld p) 2 alan st) = count st" for st
    using processRecipient_unreadable [OF sample_calls(4)] by simp
  show ?thesis unfolding sample_loop c2 c1 by (simp add: initRun_def)
qed

lemma sample_len: "int (length sampleRows) = 3"
  by (simp add: sampleRows_def)

lemma sample_three: "Sprintf_d 3 = ''3''"
  by code_simp

lemma sample_run:
  "generateDrafts (sampleWorld None)
     = Inr \<lparr>final = rowLoop (sampleWorld None) 1 31 0 sampleRows initRun, written = ''3''\<rparr>"
proof -
  have s: "loadStart None = 1" by (simp add: loadStart_def)
  have e: "endIndexOf 1 maxDrafts = 31" by (simp add: endIndexOf_def maxDrafts_def wrapInt_def)
  have n: "newProgressOf 31 3 = 3" by (simp add: newProgressOf_def)
  show ?thesis
    unfolding generateDrafts_Inr [OF sample_setup(1-5)] sample_setup(6) s e sample_len n sample_three ..
qed

lemma sample_start_3: "loadStart (Some ''3'') = 3"
proof -
  have "Sscanf_d ''3'' = Some 3" by code_simp
  then show ?thesis by (simp add: loadStart_def)
qed

lemma sample_run_end:
  "generateDrafts (sampleWorld (Some ''3''))
     = Inr \<lparr>final = rowLoop (sampleWorld (Some ''3'')) 3 33 0 sampleRows initRun, written = ''3''\<rparr>"
proof -
  have e: "endIndexOf 3 maxDrafts = 33" by (simp add: endIndexOf_def maxDrafts_def wrapInt_def)
  have n: "newProgressOf 33 3 = 3" by (simp add: newProgressOf_def)
  show ?thesis
    unfolding generateDrafts_Inr [OF sample_setup(1-5)] sample_setup(6) sample_start_3 e
      sample_len n sample_three ..
qed

subsection \<open>The start index and the header row\<close>

lemma processRecipient_to:
  "map fst (calls (processRecipient w i r st)) = map fst (calls st) @ [recipientEmail r]"
  by (simp add: processRecipient_calls)

lemma sample_loop_from_0:
  "rowLoop (sampleWorld p) 0 30 0 sampleRows initRun
     = processRecipient (sampleWorld p) 2 alan
         (processRecipient (sampleWorld p) 1 ada
            (processRecipient (sampleWorld p) 0
               \<lparr>recipientName = ''Name'', recipientEmail = ''Email'',
                  recipientResearch = ''Research''\<rparr> initRun))"
proof -
  let ?h = "\<lparr>recipientName = ''Name'', recipientEmail = ''Email'',
                  recipientResearch = ''Research''\<rparr>"
  have "rowLoop (sampleWorld p) 0 30 0 sampleRows initRun
      = rowLoop (sampleWorld p) 0 30 (Suc 0) (tl sampleRows)
          (processRecipient (sampleWorld p) 0 ?h initRun)"
    by (simp add: sampleRows_def sample_extract(1))
  also have "\<dots> = rowLoop (sampleWorld p) 0 30 (Suc 1) (tl (tl sampleRows))
                    (processRecipient (sampleWorld p) 1 ada
                       (processRecipient (sampleWorld p) 0 ?h initRun))"
    by (simp add: sampleRows_def sample_extract(2))
  also have "\<dots> = rowLoop (sampleWorld p) 0 30 (Suc 2) []
                    (processRecipient (sampleWorld p) 2 alan
                       (processRecipient (sampleWorld p) 1 ada
                          (processRecipient (sampleWorld p) 0 ?h initRun)))"
    by (simp add: sampleRows_def sample_extract(3) numeral_2_eq_2)
  finally show ?thesis by simp
qed

lemma rowLoop_header_skipped:
  "1 \<le> k \<Longrightarrow> rowLoop w k e 0 (row # rows) st = rowLoop w k e (Suc 0) rows st"
  by simp

lemma rowLoop_header_processed:
  "k \<le> 0 \<Longrightarrow> 0 < e \<Longrightarrow>
   rowLoop w k e 0 (row # rows) st =
     (case extractRow row of
        None \<Rightarrow> rowLoop w k e (Suc 0) rows st
      | Some r \<Rightarrow> rowLoop w k e (Suc 0) rows (processRecipient w 0 r st))"
  by simp

lemma rowLoop_ends_at_0:
  "k \<le> 0 \<Longrightarrow> e \<le> 0 \<Longrightarrow> rowLoop w k e 0 (row # rows) st = st"
  by simp

text \<open>
  Claim C3, as stated, fails: a progress file that holds zero or a negative integer is
  scanned successfully and its value is used as the start index unchanged. With the file
  holding 0, the loop over the sample sheet treats the header row as a data row: the first
  message is addressed to the header's "Email".
\<close>

theorem loadStart_below_one:
  "\<not> 1 \<le> loadStart (Some ''0'') \<and> \<not> 1 \<le> loadStart (Some ''-5'')
   \<and> map fst (calls (rowLoop (sampleWorld (Some ''0'')) (loadStart (Some ''0''))
                        (endIndexOf (loadStart (Some ''0'')) maxDrafts) 0 sampleRows initRun))
       = [''Email'', ''ada@example.org'', ''alan@example.org'']"
proof -
  have "Sscanf_d ''0'' = Some 0" by code_simp
  then have z: "loadStart (Some ''0'') = 0" by (simp add: loadStart_def)
  have "Sscanf_d ''-5'' = Some (- 5)" by code_simp
  then have m: "loadStart (Some ''-5'') = - 5" by (simp add: loadStart_def)
  have e: "endIndexOf 0 maxDrafts = 30" by (simp add: endIndexOf_def maxDrafts_def wrapInt_def)
  have "map fst (calls (rowLoop (sampleWorld (Some ''0'')) 0 30 0 sampleRows initRun))
       = [''Email'', ''ada@example.org'', ''alan@example.org'']"
    unfolding sample_loop_from_0 processRecipient_to
    by (simp add: initRun_def ada_def alan_def)
  then show ?thesis unfolding z m e by simp
qed

text \<open>
  Claim C3, amended: the start index used by a run is the integer scanned from the
  progress file, unchanged, and the default 1 when the file is missing or no integer can
  be scanned from it; a file holding the decimal form of any \<open>int\<close>, zero and negative
  ones included, loads as exactly that integer. So the start index is at least 1 exactly
  when the file is missing, unparsable, or holds an integer that is itself at least 1.
  With a start index of at least 1 the header row at index 0 is passed over; with a start
  index \<open>k\<close> such that \<open>- maxDrafts < k \<le> 0\<close> the loop body is run for the header row
  as for a data row; with \<open>k \<le> - maxDrafts\<close> the loop ends at row 0 and no row is
  processed.
\<close>

theorem loadStart_unclamped:
  "loadStart None = 1
   \<and> (Sscanf_d data = None \<longrightarrow> loadStart (Some data) = 1)
   \<and> (Sscanf_d data = Some j \<longrightarrow> loadStart (Some data) = j)
   \<and> (minInt \<le> k \<and> k \<le> maxInt \<longrightarrow> loadStart (Some (Sprintf_d k)) = k)
   \<and> (1 \<le> loadStart progress \<longleftrightarrow>
        (\<forall>d n. progress = Some d \<longrightarrow> Sscanf_d d = Some n \<longrightarrow> 1 \<le> n))
   \<and> (1 \<le> k \<longrightarrow>
        rowLoop w k (endIndexOf k maxDrafts) 0 (row # rows) st
          = rowLoop w k (endIndexOf k maxDrafts) (Suc 0) rows st)
   \<and> (- maxDrafts < k \<and> k \<le> 0 \<longrightarrow>
        rowLoop w k (endIndexOf k maxDrafts) 0 (row # rows) st
          = (case extractRow row of
               None \<Rightarrow> rowLoop w k (endIndexOf k maxDrafts) (Suc 0) rows st
             | Some r \<Rightarrow>
                 rowLoop w k (endIndexOf k maxDrafts) (Suc 0) rows (processRecipient w 0 r st)))
   \<and> (minInt \<le> k \<and> k \<le> - maxDrafts \<longrightarrow>
        rowLoop w k (endIndexOf k maxDrafts) 0 (row # rows) st = st)"
proof (intro conjI impI)
  show "loadStart None = 1" by (simp add: loadStart_def)
next
  assume "Sscanf_d data = None"
  then show "loadStart (Some data) = 1" by (simp add: loadStart_def)
next
  assume "Sscanf_d data = Some j"
  then show "loadStart (Some data) = j" by (simp add: loadStart_def)
next
  assume "minInt \<le> k \<and> k \<le> maxInt"
  then have "Sscanf_d (Sprintf_d k @ []) = Some k"
    by (intro Sscanf_d_Sprintf_d) simp_all
  then show "loadStart (Some (Sprintf_d k)) = k" by (simp add: loadStart_def)
next
  show "1 \<le> loadStart progress \<longleftrightarrow>
        (\<forall>d n. progress = Some d \<longrightarrow> Sscanf_d d = Some n \<longrightarrow> 1 \<le> n)"
    by (auto simp: loadStart_def split: option.splits)
next
  assume "1 \<le> k"
  then show "rowLoop w k (endIndexOf k maxDrafts) 0 (row # rows) st
          = rowLoop w k (endIndexOf k maxDrafts) (Suc 0) rows st"
    by (rule rowLoop_header_skipped)
next
  assume a: "- maxDrafts < k \<and> k \<le> 0"
  then have "minInt \<le> k" "k + maxDrafts \<le> maxInt"
    by (simp_all add: maxDrafts_def minInt_def maxInt_def)
  then have "endIndexOf k maxDrafts = k + maxDrafts" by (rule endIndexOf_exact)
  with a have "0 < endIndexOf k maxDrafts" by simp
  with a show "rowLoop w k (endIndexOf k maxDrafts) 0 (row # rows) st
          = (case extractRow row of
               None \<Rightarrow> rowLoop w k (endIndexOf k maxDrafts) (Suc 0) rows st
             | Some r \<Rightarrow>
                 rowLoop w k (endIndexOf k maxDrafts) (Suc 0) rows (processRecipient w 0 r st))"
    by (intro rowLoop_header_processed) simp_all
next
  assume a: "minInt \<le> k \<and> k \<le> - maxDrafts"
  then have "endIndexOf k maxDrafts \<le> k + maxDrafts" by (intro endIndexOf_le) simp
  with a have "endIndexOf k maxDrafts \<le> 0" by simp
  moreover from a have "k \<le> 0" by (simp add: maxDrafts_def)
  ultimately show "rowLoop w k (endIndexOf k maxDrafts) 0 (row # rows) st = st"
    by (rule rowLoop_ends_at_0 [rotated])
qed

theorem loadStart_unclamped_witness:
  "loadStart None = 1
   \<and> loadStart (Some ''next'') = 1
   \<and> loadStart (Some ''42'') = 42
   \<and> loadStart (Some ''-5'') = - 5
   \<and> 1 \<le> loadStart (Some ''42'')
   \<and> rowLoop (sampleWorld None) 1 31 0 sampleRows initRun
       = rowLoop (sampleWorld None) 1 31 (Suc 0) (tl sampleRows) initRun
   \<and> rowLoop (sampleWorld (Some ''0'')) 0 30 0 sampleRows initRun
       = rowLoop (sampleWorld (Some ''0'')) 0 30 (Suc 0) (tl sampleRows)
           (processRecipient (sampleWorld (Some ''0'')) 0
              \<lparr>recipientName = ''Name'', recipientEmail = ''Email'',
                 recipientResearch = ''Research''\<rparr> initRun)
   \<and> rowLoop (sampleWorld (Some ''-40'')) (- 40) (- 10) 0 sampleRows initRun = initRun"
proof -
  let ?header = "[''No'', ''Name:Email'', ''Research'']"
  have rows: "sampleRows = ?header # tl sampleRows" by (simp add: sampleRows_def)
  have s1: "Sscanf_d ''next'' = None" by code_simp
  have s2: "Sscanf_d ''42'' = Some 42" by code_simp
  have p5: "Sprintf_d (- 5) = ''-5''" by code_simp
  have r5: "minInt \<le> - 5 \<and> - 5 \<le> maxInt" by (simp add: minInt_def maxInt_def)
  have e1: "endIndexOf 1 maxDrafts = 31"
   and e0: "endIndexOf 0 maxDrafts = 30"
   and e40: "endIndexOf (- 40) maxDrafts = - 10"
    by (simp_all add: endIndexOf_def maxDrafts_def wrapInt_def)
  have k0: "- maxDrafts < 0 \<and> (0::int) \<le> 0" by (simp add: maxDrafts_def)
  have k40: "minInt \<le> - 40 \<and> - 40 \<le> - maxDrafts" by (simp add: maxDrafts_def minInt_def)
  note a = loadStart_unclamped [where data = "''next''" and k = "- 5" and progress = "Some ''42''"
             and w = "sampleWorld None" and row = ?header and rows = "tl sampleRows"
             and st = initRun]
  note b = loadStart_unclamped [where data = "''42''" and j = 42 and k = 1
             and w = "sampleWorld None" and row = ?header and rows = "tl sampleRows"
             and st = initRun, unfolded e1 rows [symmetric]]
  note c = loadStart_unclamped [where k = 0
             and w = "sampleWorld (Some ''0'')" and row = ?header and rows = "tl sampleRows"
             and st = initRun, unfolded e0 rows [symmetric] sample_extract(1) option.case]
  note d = loadStart_unclamped [where k = "- 40"
             and w = "sampleWorld (Some ''-40'')" and row = ?header and rows = "tl sampleRows"
             and st = initRun, unfolded e40 rows [symmetric]]
  from a have 1: "loadStart None = 1" by blast
  from a s1 have 2: "loadStart (Some ''next'') = 1" by blast
  from b s2 have 3: "loadStart (Some ''42'') = 42" by blast
  from a r5 have "loadStart (Some (Sprintf_d (- 5))) = - 5" by blast
  then have 4: "loadStart (Some ''-5'') = - 5" unfolding p5 .
  from a s2 have 5: "1 \<le> loadStart (Some ''42'')" by auto
  from b have 6: "rowLoop (sampleWorld None) 1 31 0 sampleRows initRun
       = rowLoop (sampleWorld None) 1 31 (Suc 0) (tl sampleRows) initRun"
    by simp
  from c k0 have 7: "rowLoop (sampleWorld (Some ''0'')) 0 30 0 sampleRows initRun
       = rowLoop (sampleWorld (Some ''0'')) 0 30 (Suc 0) (tl sampleRows)
           (processRecipient (sampleWorld (Some ''0'')) 0
              \<lparr>recipientName = ''Name'', recipientEmail = ''Email'',
                 recipientResearch = ''Research''\<rparr> initRun)"
    by blast
  from d k40 have 8: "rowLoop (sampleWorld (Some ''-40'')) (- 40) (- 10) 0 sampleRows initRun = initRun"
    by blast
  from 1 2 3 4 5 6 7 8 show ?thesis by (intro conjI)
qed

subsection \<open>Failure of the text generation\<close>

text \<open>
  Claim C5, as stated, fails for the variant of the loop with a mode (second program of
  part 001, lines 633-637): when the text-generation call returns an error, no message is
  composed for the recipient at all; the failure is logged and the loop goes on to the next
  row. In the sample run of that loop over the row of Ada Lovelace, for whom the call
  fails, \<open>createDraft\<close> is never called.
\<close>

theorem mode_variant_no_fallback:
  "rowLoopMode (sampleWorld None) ''initial'' 1 31 1
     [[''1'', ''Ada Lovelace : ada@example.org'', ''compilers'']] initRun
   = \<lparr>count = 0, calls = [], submitted = [],
      logs = [TopicExtractionFailed ''Ada Lovelace'' (Some (External ''timeout'')),
              EmailGenerationFailed ''Ada Lovelace'' (External ''timeout'')]\<rparr>"
proof -
  have b: "(1::int) \<le> int 1" "int 1 < 31" by simp_all
  have "rowLoopMode (sampleWorld None) ''initial'' 1 31 1
          [[''1'', ''Ada Lovelace : ada@example.org'', ''compilers'']] initRun
        = rowLoopMode (sampleWorld None) ''initial'' 1 31 (Suc 1) []
            (processRecipientMode (sampleWorld None) ''initial'' 1 ada initRun)"
    using b sample_extract(2) by (rule rowLoopMode_in_window)
  also have "\<dots> = processRecipientMode (sampleWorld None) ''initial'' 1 ada initRun"
    by simp
  also have "\<dots> = initRun\<lparr>logs := logs initRun @
                 [TopicExtractionFailed (recipientName ada) (Some (External ''timeout'')),
                  EmailGenerationFailed (recipientName ada) (External ''timeout'')]\<rparr>"
    using sample_calls(1) by (rule processRecipientMode_error)
  also have "\<dots> = \<lparr>count = 0, calls = [], submitted = [],
      logs = [TopicExtractionFailed ''Ada Lovelace'' (Some (External ''timeout'')),
              EmailGenerationFailed ''Ada Lovelace'' (External ''timeout'')]\<rparr>"
    by (simp add: initRun_def ada_def)
  finally show ?thesis .
qed

text \<open>
  Claim C5, amended: for every recipient in the window, in the loop of main.go, when the
  text-generation call fails (an error, or no choice returned), the body handed to
  \<open>createDraft\<close> for that recipient contains the fallback sentence built from the
  recipient's research text, and the loop continues with the next row. In the variant with a
  mode, when the call returns an error, no message is composed for the recipient, the
  failure is logged, and the loop continues with the next row.
\<close>

theorem generation_failure_uses_fallback:
  assumes "startIndex \<le> int i" and "int i < endIndex" and "extractRow row = Some r"
  shows "(CreateChatCompletion w i = Inl err \<or> CreateChatCompletion w i = Inr [] \<longrightarrow>
            (\<exists>subject body.
               calls (processRecipient w i r st) = calls st @ [(recipientEmail r, subject, body)]
               \<and> sublist (fallbackParagraph (recipientResearch r)) body))
       \<and> rowLoop w startIndex endIndex i (row # rows) st =
           rowLoop w startIndex endIndex (Suc i) rows (processRecipient w i r st)
       \<and> (CreateChatCompletion w i = Inl err \<longrightarrow>
            calls (processRecipientMode w mode i r st) = calls st
            \<and> last (logs (processRecipientMode w mode i r st))
                = EmailGenerationFailed (recipientName r) err)
       \<and> rowLoopMode w mode startIndex endIndex i (row # rows) st =
           rowLoopMode w mode startIndex endIndex (Suc i) rows (processRecipientMode w mode i r st)"
proof (intro conjI impI)
  assume fail: "CreateChatCompletion w i = Inl err \<or> CreateChatCompletion w i = Inr []"
  from generateResearchParagraph_fails [OF fail] obtain e
    where e: "generateResearchParagraph (CreateChatCompletion w i) = Inl e" by blast
  let ?msg = "generateEmailBody (recipientName r) (fallbackParagraph (recipientResearch r))"
  have "calls (processRecipient w i r st) = calls st @ [(recipientEmail r, fst ?msg, snd ?msg)]"
    by (simp add: processRecipient_calls e)
  moreover have "sublist (fallbackParagraph (recipientResearch r)) (snd ?msg)"
    by (rule generateEmailBody_contains)
  ultimately show "\<exists>subject body.
            calls (processRecipient w i r st) = calls st @ [(recipientEmail r, subject, body)]
            \<and> sublist (fallbackParagraph (recipientResearch r)) body"
    by blast
next
  show "rowLoop w startIndex endIndex i (row # rows) st =
           rowLoop w startIndex endIndex (Suc i) rows (processRecipient w i r st)"
    using assms by (rule rowLoop_in_window)
next
  assume "CreateChatCompletion w i = Inl err"
  then show "calls (processRecipientMode w mode i r st) = calls st"
    by (simp add: processRecipientMode_error)
next
  assume "CreateChatCompletion w i = Inl err"
  then show "last (logs (processRecipientMode w mode i r st))
                = EmailGenerationFailed (recipientName r) err"
    by (simp add: processRecipientMode_error)
next
  show "rowLoopMode w mode startIndex endIndex i (row # rows) st =
           rowLoopMode w mode startIndex endIndex (Suc i) rows (processRecipientMode w mode i r st)"
    using assms by (rule rowLoopMode_in_window)
qed

theorem generation_failure_uses_fallback_witness:
  "(\<exists>subject body.
      calls (processRecipient (sampleWorld None) 1 ada initRun)
        = calls initRun @ [(recipientEmail ada, subject, body)]
      \<and> sublist (fallbackParagraph (recipientResearch ada)) body)
   \<and> rowLoop (sampleWorld None) 1 31 1
        [[''1'', ''Ada Lovelace : ada@example.org'', ''compilers''],
         [''2'', ''Alan Turing : alan@example.org'', ''computability'']] initRun
     = rowLoop (sampleWorld None) 1 31 2
        [[''2'', ''Alan Turing : alan@example.org'', ''computability'']]
        (processRecipient (sampleWorld None) 1 ada initRun)
   \<and> calls (processRecipientMode (sampleWorld None) ''followup'' 1 ada initRun) = calls initRun
   \<and> last (logs (processRecipientMode (sampleWorld None) ''followup'' 1 ada initRun))
       = EmailGenerationFailed (recipientName ada) (External ''timeout'')
   \<and> rowLoopMode (sampleWorld None) ''followup'' 1 31 1
        [[''1'', ''Ada Lovelace : ada@example.org'', ''compilers''],
         [''2'', ''Alan Turing : alan@example.org'', ''computability'']] initRun
     = rowLoopMode (sampleWorld None) ''followup'' 1 31 2
        [[''2'', ''Alan Turing : alan@example.org'', ''computability'']]
        (processRecipientMode (sampleWorld None) ''followup'' 1 ada initRun)"
proof -
  have a: "CreateChatCompletion (sampleWorld None) 1 = Inl (External ''timeout'')"
    by (rule sample_calls)
  have b: "(1::int) \<le> int 1" "int 1 < 31" by simp_all
  note t = generation_failure_uses_fallback [OF b sample_extract(2), of "sampleWorld None"
            "External ''timeout''" initRun
            "[[''2'', ''Alan Turing : alan@example.org'', ''computability'']]" "''followup''",
            unfolded Suc_1]
  from t a show ?thesis by (intro conjI) blast+
qed

subsection \<open>Unreadable attachment\<close>

text \<open>
  Claim C8: for every recipient in the window, if the attachment cannot be read while the
  recipient is processed, \<open>buildRawEmail\<close> returns the read error, \<open>createDraft\<close>
  returns it wrapped without handing anything to the mail service (the trace of submitted
  raw messages and the counter are unchanged, the failure is logged), and the loop
  continues with the next row.
\<close>

theorem unreadable_attachment_skips_dispatch:
  assumes "ReadAttachment w i attachmentPath = Inl err"
      and "startIndex \<le> int i" and "int i < endIndex" and "extractRow row = Some r"
  shows "buildRawEmail w i to subject body attachmentPath = Inl err
       \<and> fst (createDraft w i to subject body attachmentPath st)
           = Some (Errorf ''build email: '' (Some err))
       \<and> submitted (processRecipient w i r st) = submitted st
       \<and> count (processRecipient w i r st) = count st
       \<and> last (logs (processRecipient w i r st))
           = DraftCreationFailed (recipientName r) (Errorf ''build email: '' (Some err))
       \<and> rowLoop w startIndex endIndex i (row # rows) st =
           rowLoop w startIndex endIndex (Suc i) rows (processRecipient w i r st)"
proof (intro conjI)
  show "buildRawEmail w i to subject body attachmentPath = Inl err"
    using assms(1) by (rule buildRawEmail_unreadable)
  show "fst (createDraft w i to subject body attachmentPath st)
           = Some (Errorf ''build email: '' (Some err))"
    using assms(1) by (simp add: createDraft_unreadable)
  show "submitted (processRecipient w i r st) = submitted st"
    using assms(1) by (simp add: processRecipient_dispatch dispatch_unreadable split: sum.splits)
  show "count (processRecipient w i r st) = count st"
    using assms(1) by (simp add: processRecipient_dispatch dispatch_unreadable split: sum.splits)
  show "last (logs (processRecipient w i r st))
           = DraftCreationFailed (recipientName r) (Errorf ''build email: '' (Some err))"
    using assms(1) by (simp add: processRecipient_dispatch dispatch_unreadable split: sum.splits)
  show "rowLoop w startIndex endIndex i (row # rows) st =
           rowLoop w startIndex endIndex (Suc i) rows (processRecipient w i r st)"
    using assms(2-4) by (rule rowLoop_in_window)
qed

theorem unreadable_attachment_skips_dispatch_witness:
  "buildRawEmail (sampleWorld None) 2 ''alan@example.org'' ''Hello'' ''<p>Hi</p>'' attachmentPath
     = Inl (External ''no such file'')
   \<and> fst (createDraft (sampleWorld None) 2 ''alan@example.org'' ''Hello'' ''<p>Hi</p>''
            attachmentPath initRun)
       = Some (Errorf ''build email: '' (Some (External ''no such file'')))
   \<and> submitted (processRecipient (sampleWorld None) 2 alan initRun) = submitted initRun
   \<and> count (processRecipient (sampleWorld None) 2 alan initRun) = count initRun
   \<and> last (logs (processRecipient (sampleWorld None) 2 alan initRun))
       = DraftCreationFailed (recipientName alan)
           (Errorf ''build email: '' (Some (External ''no such file'')))
   \<and> rowLoop (sampleWorld None) 1 31 2
        [[''2'', ''Alan Turing : alan@example.org'', ''computability''], [''3'', ''x:y'', ''z'']]
        initRun
     = rowLoop (sampleWorld None) 1 31 3 [[''3'', ''x:y'', ''z'']]
        (processRecipient (sampleWorld None) 2 alan initRun)"
proof -
  have b: "(1::int) \<le> int 2" "int 2 < 31" by simp_all
  have three: "Suc 2 = 3" by simp
  show ?thesis
    using unreadable_attachment_skips_dispatch [OF sample_calls(4) b sample_extract(3),
            of None "''alan@example.org''" "''Hello''" "''<p>Hi</p>''" initRun "[[''3'', ''x:y'', ''z'']]"]
    unfolding three .
qed

subsection \<open>Number of drafts\<close>

text \<open>
  Claim C10: in every run that reaches its end, the number of drafts created (the final
  value of \<open>count\<close>) is at most \<open>maxDrafts\<close>, and so is the number of calls of
  \<open>createDraft\<close>: the loop body is run for at most \<open>endIndex - startIndex\<close> row
  indices, which is at most \<open>maxDrafts\<close>, and increments the counter at most once each
  time.
\<close>

theorem drafts_created_at_most_maxDrafts:
  assumes "generateDrafts w = Inr out"
  shows "int (count (final out)) \<le> maxDrafts \<and> int (length (calls (final out))) \<le> maxDrafts"
proof -
  from generateDrafts_InrD [OF assms] obtain f rows where
    pre: "OpenFile w excelPath = Inr f" "f sheetName = Inr rows" "1 < length rows"
           "GmailService w = None" "Getenv w ''OPENAI_API_KEY'' \<noteq> []"
    by blast
  define s where "s = loadStart (ReadProgress w progressFile)"
  define e where "e = endIndexOf s maxDrafts"
  have out: "final out = rowLoop w s e 0 rows initRun"
    using assms generateDrafts_Inr [OF pre] by (auto simp: s_def e_def)
  have "minInt \<le> s" by (simp add: s_def loadStart_range)
  then have "e \<le> s + maxDrafts" unfolding e_def by (rule endIndexOf_le)
  then have width: "nat (e - max s (int 0)) \<le> nat maxDrafts" by (auto simp: max_def maxDrafts_def)
  have "count (final out) \<le> nat (e - max s (int 0))"
   and "length (calls (final out)) \<le> nat (e - max s (int 0))"
    using rowLoop_bounds [of w s e 0 rows initRun] by (simp_all add: out initRun_def)
  with width show ?thesis by (simp add: maxDrafts_def)
qed

theorem drafts_created_at_most_maxDrafts_witness:
  "generateDrafts (sampleWorld None)
     = Inr \<lparr>final = rowLoop (sampleWorld None) 1 31 0 sampleRows initRun, written = ''3''\<rparr>
   \<and> count (rowLoop (sampleWorld None) 1 31 0 sampleRows initRun) = 1
   \<and> int (count (rowLoop (sampleWorld None) 1 31 0 sampleRows initRun)) \<le> maxDrafts
   \<and> int (length (calls (rowLoop (sampleWorld None) 1 31 0 sampleRows initRun))) \<le> maxDrafts"
proof -
  have "int (count (final \<lparr>final = rowLoop (sampleWorld None) 1 31 0 sampleRows initRun, written = ''3''\<rparr>)) \<le> maxDrafts
      \<and> int (length (calls (final \<lparr>final = rowLoop (sampleWorld None) 1 31 0 sampleRows initRun, written = ''3''\<rparr>))) \<le> maxDrafts"
    using sample_run by (rule drafts_created_at_most_maxDrafts)
  then have "int (count (rowLoop (sampleWorld None) 1 31 0 sampleRows initRun)) \<le> maxDrafts
      \<and> int (length (calls (rowLoop (sampleWorld None) 1 31 0 sampleRows initRun))) \<le> maxDrafts"
    unfolding outcome.simps .
  with sample_run sample_count [of None] show ?thesis by (intro conjI) blast+
qed

subsection \<open>The progress file at the end of a run\<close>

text \<open>
  Claim C2, as stated, fails when \<open>startIndex + maxDrafts\<close> overflows: with the progress
  file holding the largest \<open>int\<close>, the start index is not smaller than the number of
  rows and no recipient is processed, but the sum wraps to a negative number, which is
  written to the progress file instead of the number of rows (3 here).
\<close>

theorem progress_overflow:
  "generateDrafts (sampleWorld (Some ''9223372036854775807''))
     = Inr \<lparr>final = initRun, written = ''-9223372036854775779''\<rparr>
   \<and> int (length sampleRows) \<le> loadStart (Some ''9223372036854775807'')
   \<and> Sprintf_d (int (length sampleRows)) = ''3''"
proof -
  have s: "Sscanf_d ''9223372036854775807'' = Some 9223372036854775807" by code_simp
  have l: "loadStart (Some ''9223372036854775807'') = 9223372036854775807"
    by (simp add: loadStart_def s)
  have e: "endIndexOf 9223372036854775807 maxDrafts = - 9223372036854775779"
    by (simp add: endIndexOf_def wrapInt_def maxDrafts_def)
  have p: "Sprintf_d (- 9223372036854775779) = ''-9223372036854775779''"
    by (simp add: Sprintf_d_def natDigits.simps digitChar_def char_of_def bit_Suc_0_iff)
  have n: "newProgressOf (- 9223372036854775779) 3 = - 9223372036854775779"
    by (simp add: newProgressOf_def)
  have skip: "rowLoop (sampleWorld (Some ''9223372036854775807'')) 9223372036854775807
                (- 9223372036854775779) 0 sampleRows initRun = initRun"
    by (rule rowLoop_before_start) (simp add: sampleRows_def)
  have "generateDrafts (sampleWorld (Some ''9223372036854775807''))
     = Inr \<lparr>final = initRun, written = ''-9223372036854775779''\<rparr>"
    unfolding generateDrafts_Inr [OF sample_setup(1-5)] sample_setup(6) l e skip sample_len n p ..
  moreover have "int (length sampleRows) \<le> loadStart (Some ''9223372036854775807'')"
    unfolding l sample_len by simp
  moreover have "Sprintf_d (int (length sampleRows)) = ''3''"
    unfolding sample_len by (rule sample_three)
  ultimately show ?thesis by (intro conjI)
qed

text \<open>
  Claim C2, amended: at the end of every run that gets past its setup, provided
  \<open>startIndex + maxDrafts\<close> is representable as an \<open>int\<close>, the data written to the
  progress file is \<open>min (startIndex + maxDrafts) totalRows\<close>, whatever the
  text-generation calls, the attachment reads and the draft-creation calls of the batch
  returned; and when \<open>startIndex \<ge> totalRows\<close>, no recipient is processed (the final
  state is the initial one) and the data written is \<open>totalRows\<close>.
\<close>

theorem progress_written_regardless:
  assumes "generateDrafts w = Inr out"
      and "OpenFile w excelPath = Inr f" and "f sheetName = Inr rows"
      and "loadStart (ReadProgress w progressFile) + maxDrafts \<le> maxInt"
  shows "written out =
           Sprintf_d (min (loadStart (ReadProgress w progressFile) + maxDrafts) (int (length rows)))
       \<and> (int (length rows) \<le> loadStart (ReadProgress w progressFile) \<longrightarrow>
            final out = initRun \<and> written out = Sprintf_d (int (length rows)))"
proof -
  from generateDrafts_InrD [OF assms(1)] assms(2,3) have
    pre: "OpenFile w excelPath = Inr f" "f sheetName = Inr rows" "1 < length rows"
           "GmailService w = None" "Getenv w ''OPENAI_API_KEY'' \<noteq> []"
    by auto
  define s where "s = loadStart (ReadProgress w progressFile)"
  have e: "endIndexOf s maxDrafts = s + maxDrafts"
    using assms(4) by (intro endIndexOf_exact) (simp_all add: s_def loadStart_range)
  have out: "out = \<lparr>final = rowLoop w s (s + maxDrafts) 0 rows initRun,
                    written = Sprintf_d (newProgressOf (s + maxDrafts) (int (length rows)))\<rparr>"
    using assms(1) generateDrafts_Inr [OF pre] by (simp add: s_def [symmetric] e)
  have w: "written out = Sprintf_d (min (s + maxDrafts) (int (length rows)))"
    by (simp add: out newProgressOf_def min_def)
  have "final out = initRun \<and> written out = Sprintf_d (int (length rows))"
    if "int (length rows) \<le> s"
  proof
    show "final out = initRun"
      using that by (simp add: out rowLoop_before_start)
    show "written out = Sprintf_d (int (length rows))"
      using that by (simp add: w min_def maxDrafts_def)
  qed
  with w show ?thesis by (simp add: s_def)
qed

theorem progress_written_regardless_witness:
  "generateDrafts (sampleWorld None)
     = Inr \<lparr>final = rowLoop (sampleWorld None) 1 31 0 sampleRows initRun, written = ''3''\<rparr>
   \<and> Sprintf_d (min (1 + maxDrafts) (int (length sampleRows))) = ''3''
   \<and> generateDrafts (sampleWorld (Some ''3''))
     = Inr \<lparr>final = rowLoop (sampleWorld (Some ''3'')) 3 33 0 sampleRows initRun, written = ''3''\<rparr>
   \<and> int (length sampleRows) \<le> loadStart (Some ''3'')
   \<and> rowLoop (sampleWorld (Some ''3'')) 3 33 0 sampleRows initRun = initRun
   \<and> Sprintf_d (int (length sampleRows)) = ''3''"
proof -
  have s1: "loadStart (ReadProgress (sampleWorld None) progressFile) = 1"
    by (simp add: sample_setup(6) loadStart_def)
  have s3: "loadStart (ReadProgress (sampleWorld (Some ''3'')) progressFile) = 3"
    by (simp add: sample_setup(6) sample_start_3)
  have a: "loadStart (ReadProgress (sampleWorld None) progressFile) + maxDrafts \<le> maxInt"
    unfolding s1 by (simp add: maxDrafts_def maxInt_def)
  have b: "loadStart (ReadProgress (sampleWorld (Some ''3'')) progressFile) + maxDrafts \<le> maxInt"
    unfolding s3 by (simp add: maxDrafts_def maxInt_def)
  have le: "int (length sampleRows) \<le> loadStart (Some ''3'')"
    by (simp add: sample_len sample_start_3)
  note t1 = progress_written_regardless [OF sample_run sample_setup(1,2) a, unfolded s1 outcome.simps]
  note t3 = progress_written_regardless [OF sample_run_end sample_setup(1,2) b, unfolded s3 outcome.simps]
  from t1 have 1: "Sprintf_d (min (1 + maxDrafts) (int (length sampleRows))) = ''3''"
    by simp
  from t3 le have 2: "rowLoop (sampleWorld (Some ''3'')) 3 33 0 sampleRows initRun = initRun
         \<and> ''3'' = Sprintf_d (int (length sampleRows))"
    unfolding sample_start_3 by blast
  from 2 have 3: "Sprintf_d (int (length sampleRows)) = ''3''" by simp
  from 1 2 3 sample_run sample_run_end le show ?thesis by (intro conjI) blast+
qed

subsection \<open>Determinism of the composer\<close>

text \<open>
  Claim C4, as stated, fails for the composer \<open>generateEmail\<close> of the variant with a
  mode: its subject is picked by \<open>getRandomSubject\<close> from a generator seeded with the
  clock, so two invocations with the same recipient, the same answer of the API and the
  same mode return different subjects when the draws differ.
\<close>

theorem random_subject_differs:
  "fst (fst (generateEmail (Inr [''databases'']) 0 ''Ada Lovelace'' ''compilers'' ''initial'' initRun))
   \<noteq> fst (fst (generateEmail (Inr [''databases'']) 1 ''Ada Lovelace'' ''compilers'' ''initial'' initRun))"
  unfolding generateEmail_subject by (simp add: getRandomSubject_def subjects_def)

text \<open>
  Claim C4, amended: the composer of main.go is deterministic: the (subject, body) pair
  handed to \<open>createDraft\<close> for a recipient is the same in any two invocations that
  have the same recipient and the same generated paragraph, whatever else the collaborators
  do. The composer \<open>generateEmail\<close> of the variant with a mode is deterministic in its
  body and its error only: they do not depend on the draw, while the subject is the one of
  the ten fixed subjects selected by the draw.
\<close>

theorem composer_deterministic_except_subject:
  "(generateResearchParagraph (CreateChatCompletion w i)
      = generateResearchParagraph (CreateChatCompletion w' i') \<longrightarrow>
      last (calls (processRecipient w i r st)) = last (calls (processRecipient w' i' r st')))
   \<and> snd (fst (generateEmail resp k profName researchText mode st))
       = snd (fst (generateEmail resp k' profName researchText mode st))
   \<and> (k < length subjects \<longrightarrow>
        fst (fst (generateEmail (Inr (c # cs)) k profName researchText mode st)) \<in> set subjects)"
proof (intro conjI impI)
  assume "generateResearchParagraph (CreateChatCompletion w i)
      = generateResearchParagraph (CreateChatCompletion w' i')"
  then show "last (calls (processRecipient w i r st)) = last (calls (processRecipient w' i' r st'))"
    by (simp add: processRecipient_calls)
next
  show "snd (fst (generateEmail resp k profName researchText mode st))
       = snd (fst (generateEmail resp k' profName researchText mode st))"
    by (rule generateEmail_body_draw)
next
  assume "k < length subjects"
  then show "fst (fst (generateEmail (Inr (c # cs)) k profName researchText mode st)) \<in> set subjects"
    unfolding generateEmail_subject getRandomSubject_def by (rule nth_mem)
qed

theorem composer_deterministic_except_subject_witness:
  "last (calls (processRecipient (sampleWorld None) 1 ada initRun))
     = last (calls (processRecipient (sampleWorld (Some ''3'')) 1 ada
                      (processRecipient (sampleWorld None) 2 alan initRun)))
   \<and> fst (fst (generateEmail (Inr [''databases'']) 3 ''Ada Lovelace'' ''compilers'' ''initial'' initRun))
       \<in> set subjects"
proof -
  have a: "generateResearchParagraph (CreateChatCompletion (sampleWorld None) 1)
      = generateResearchParagraph (CreateChatCompletion (sampleWorld (Some ''3'')) 1)"
    unfolding sample_calls ..
  have b: "3 < length subjects" by (simp add: subjects_def)
  note t = composer_deterministic_except_subject [where w = "sampleWorld None" and i = 1
     and w' = "sampleWorld (Some ''3'')" and i' = 1 and r = ada and st = initRun
     and st' = "processRecipient (sampleWorld None) 2 alan initRun" and k = 3
     and c = "''databases''" and cs = "[]" and profName = "''Ada Lovelace''"
     and researchText = "''compilers''" and mode = "''initial''"]
  from t a b show ?thesis by blast
qed

section \<open>Properties of the MIME builder\<close>

subsection \<open>Base64 decoding inverts encoding\<close>

lemma regroup24:
  fixes v :: nat
  assumes "v < 16777216"
  shows "((v div 262144 mod 64 * 64 + v div 4096 mod 64) * 64 + v div 64 mod 64) * 64 + v mod 64 = v"
proof -
  define q1 where "q1 = v div 64"
  define q2 where "q2 = q1 div 64"
  define q3 where "q3 = q2 div 64"
  have "v div (64 * 64) = v div 64 div 64" by (rule div_mult2_eq)
  then have e1: "v div 4096 = q2" by (simp add: q1_def q2_def)
  have "v div (4096 * 64) = v div 4096 div 64" by (rule div_mult2_eq)
  then have e2: "v div 262144 = q3" by (simp add: e1 q3_def)
  have "v < 64 * 262144" using assms by simp
  then have "q3 < 64" unfolding e2 [symmetric] by (rule less_mult_imp_div_less)
  then have m3: "q3 mod 64 = q3" by simp
  have d1: "q1 * 64 + v mod 64 = v" by (simp add: q1_def)
  have d2: "q2 * 64 + q1 mod 64 = q1" by (simp add: q2_def)
  have d3: "q3 * 64 + q2 mod 64 = q2" by (simp add: q3_def)
  show ?thesis
    unfolding e1 e2 q1_def [symmetric] m3 d3 d2 d1 ..
qed

lemma bytes3:
  fixes a b c :: nat
  assumes "a < 256" "b < 256" "c < 256"
  shows "(a * 65536 + b * 256 + c) div 65536 = a"
    and "(a * 65536 + b * 256 + c) div 256 mod 256 = b"
    and "(a * 65536 + b * 256 + c) mod 256 = c"
    and "a * 65536 + b * 256 + c < 16777216"
proof -
  have bc: "b * 256 + c < 65536" using assms by simp
  have "(a * 65536 + b * 256 + c) = (b * 256 + c) + a * 65536" by simp
  then show "(a * 65536 + b * 256 + c) div 65536 = a"
    using bc by simp
  have x: "a * 65536 + b * 256 + c = c + (a * 256 + b) * 256" by simp
  have "(a * 65536 + b * 256 + c) div 256 = a * 256 + b"
    unfolding x using assms(3) by simp
  then show "(a * 65536 + b * 256 + c) div 256 mod 256 = b"
    using assms(2) by simp
  show "(a * 65536 + b * 256 + c) mod 256 = c"
    unfolding x using assms(3) by (simp only: mod_mult_self1 mod_less)
  show "a * 65536 + b * 256 + c < 16777216" using assms by simp
qed

lemma encodeStd_length: "length encodeStd = 64"
  by (simp add: encodeStd_def)

lemma encodeStd_distinct: "distinct encodeStd"
  by (simp add: encodeStd_def)

lemma encodeStd_chars:
  "padChar \<notin> set encodeStd" "CHR 0x0D \<notin> set encodeStd" "CHR 0x0A \<notin> set encodeStd"
  by (simp_all add: encodeStd_def padChar_def)

lemma decodeChar_nth: "k < 64 \<Longrightarrow> decodeChar encodeStd (encodeStd ! k) = Some k"
  unfolding decodeChar_def
  using map_of_zip_nth [of encodeStd "[0 ..< length encodeStd]" k]
  by (simp add: encodeStd_length encodeStd_distinct)

lemma encodeStd_nth_not_pad: "k < 64 \<Longrightarrow> encodeStd ! k \<noteq> padChar"
  by (metis encodeStd_chars(1) encodeStd_length nth_mem)

lemma encodeStd_nth_not_crlf: "k < 64 \<Longrightarrow> encodeStd ! k \<noteq> CHR 0x0D \<and> encodeStd ! k \<noteq> CHR 0x0A"
  by (metis encodeStd_chars(2,3) encodeStd_length nth_mem)

lemma DecodeString_full:
  assumes "c4 \<noteq> padChar"
      and "decodeChar enc c1 = Some i1" "decodeChar enc c2 = Some i2"
      and "decodeChar enc c3 = Some i3" "decodeChar enc c4 = Some i4"
      and "V = ((i1 * 64 + i2) * 64 + i3) * 64 + i4"
  shows "DecodeString enc (c1 # c2 # c3 # c4 # rest)
         = map_option
             ((@) [char_of (V div 65536), char_of (V div 256 mod 256), char_of (V mod 256)])
             (DecodeString enc rest)"
  using assms by (simp add: Let_def)

lemma DecodeString_pad1:
  assumes "c3 \<noteq> padChar"
      and "decodeChar enc c1 = Some i1" "decodeChar enc c2 = Some i2"
      and "decodeChar enc c3 = Some i3"
      and "V = ((i1 * 64 + i2) * 64 + i3) * 64"
  shows "DecodeString enc [c1, c2, c3, padChar]
         = Some [char_of (V div 65536), char_of (V div 256 mod 256)]"
  using assms by (simp add: Let_def)

lemma DecodeString_pad2:
  assumes "decodeChar enc c1 = Some i1" "decodeChar enc c2 = Some i2"
      and "V = (i1 * 64 + i2) * 4096"
  shows "DecodeString enc [c1, c2, padChar, padChar] = Some [char_of (V div 65536)]"
  using assms by (simp add: Let_def)

text \<open>The four characters that encode three bytes decode to them.\<close>

lemma decode_group3:
  fixes a b c :: char
  defines "v \<equiv> (of_char a :: nat) * 65536 + of_char b * 256 + of_char c"
  shows "DecodeString encodeStd
           (encodeStd ! (v div 262144 mod 64) # encodeStd ! (v div 4096 mod 64) #
            encodeStd ! (v div 64 mod 64) # encodeStd ! (v mod 64) # rest)
         = map_option ((@) [a, b, c]) (DecodeString encodeStd rest)"
proof -
  have v: "v < 16777216" "v div 65536 = of_char a" "v div 256 mod 256 = of_char b"
          "v mod 256 = of_char c"
    unfolding v_def by (simp_all only: bytes3 nat_of_char_less_256)
  have idx: "v div 262144 mod 64 < 64" "v div 4096 mod 64 < 64" "v div 64 mod 64 < 64"
            "v mod 64 < 64"
    by simp_all
  have "DecodeString encodeStd
           (encodeStd ! (v div 262144 mod 64) # encodeStd ! (v div 4096 mod 64) #
            encodeStd ! (v div 64 mod 64) # encodeStd ! (v mod 64) # rest)
        = map_option
             ((@) [char_of (v div 65536), char_of (v div 256 mod 256), char_of (v mod 256)])
             (DecodeString encodeStd rest)"
    by (rule DecodeString_full [OF encodeStd_nth_not_pad [OF idx(4)]
          decodeChar_nth [OF idx(1)] decodeChar_nth [OF idx(2)] decodeChar_nth [OF idx(3)]
          decodeChar_nth [OF idx(4)] regroup24 [OF v(1), symmetric]])
  then show ?thesis by (simp only: v(2-4) char_of_char)
qed

lemma decode_group2:
  fixes a b :: char
  defines "v \<equiv> (of_char a :: nat) * 65536 + of_char b * 256"
  shows "DecodeString encodeStd
           [encodeStd ! (v div 262144 mod 64), encodeStd ! (v div 4096 mod 64),
            encodeStd ! (v div 64 mod 64), padChar]
         = Some [a, b]"
proof -
  have v0: "v = (of_char a :: nat) * 65536 + of_char b * 256 + 0" by (simp add: v_def)
  have v: "v < 16777216" "v div 65536 = of_char a" "v div 256 mod 256 = of_char b"
    unfolding v0 by (simp_all only: bytes3 nat_of_char_less_256 zero_less_numeral)
  have m: "v mod 64 = 0" unfolding v_def by simp
  have idx: "v div 262144 mod 64 < 64" "v div 4096 mod 64 < 64" "v div 64 mod 64 < 64"
    by simp_all
  have r: "((v div 262144 mod 64 * 64 + v div 4096 mod 64) * 64 + v div 64 mod 64) * 64 = v"
    using regroup24 [OF v(1)] by (simp only: m add_0_right)
  have "DecodeString encodeStd
           [encodeStd ! (v div 262144 mod 64), encodeStd ! (v div 4096 mod 64),
            encodeStd ! (v div 64 mod 64), padChar]
        = Some [char_of (v div 65536), char_of (v div 256 mod 256)]"
    by (rule DecodeString_pad1 [OF encodeStd_nth_not_pad [OF idx(3)]
          decodeChar_nth [OF idx(1)] decodeChar_nth [OF idx(2)] decodeChar_nth [OF idx(3)]
          r [symmetric]])
  then show ?thesis by (simp only: v(2-3) char_of_char)
qed

lemma decode_group1:
  fixes a :: char
  defines "v \<equiv> (of_char a :: nat) * 65536"
  shows "DecodeString encodeStd
           [encodeStd ! (v div 262144 mod 64), encodeStd ! (v div 4096 mod 64), padChar, padChar]
         = Some [a]"
proof -
  have v0: "v = (of_char a :: nat) * 65536 + 0 * 256 + 0" by (simp add: v_def)
  have v: "v < 16777216" "v div 65536 = of_char a"
    unfolding v0 by (simp_all only: bytes3 nat_of_char_less_256 zero_less_numeral)
  have m: "v mod 64 = 0" "v div 64 mod 64 = 0" unfolding v_def by simp_all
  have idx: "v div 262144 mod 64 < 64" "v div 4096 mod 64 < 64"
    by simp_all
  define X where "X = v div 262144 mod 64 * 64 + v div 4096 mod 64"
  have "(X * 64 + 0) * 64 + 0 = v"
    using regroup24 [OF v(1)] unfolding m X_def [symmetric] .
  then have "X * 4096 = v" by simp
  then have r: "(v div 262144 mod 64 * 64 + v div 4096 mod 64) * 4096 = v"
    unfolding X_def .
  have "DecodeString encodeStd
           [encodeStd ! (v div 262144 mod 64), encodeStd ! (v div 4096 mod 64), padChar, padChar]
        = Some [char_of (v div 65536)]"
    by (rule DecodeString_pad2 [OF decodeChar_nth [OF idx(1)] decodeChar_nth [OF idx(2)]
          r [symmetric]])
  then show ?thesis by (simp only: v(2) char_of_char)
qed

lemma DecodeString_EncodeToString:
  "DecodeString encodeStd (EncodeToString encodeStd src) = Some src"
proof (induction encodeStd src rule: EncodeToString.induct)
  case (1 a b c src)
  then show ?case
    by (simp only: EncodeToString.simps Let_def append_Cons append_Nil decode_group3) simp
next
  case (2 a b)
  show ?case by (simp only: EncodeToString.simps Let_def decode_group2)
next
  case (3 a)
  show ?case by (simp only: EncodeToString.simps Let_def decode_group1)
next
  case 4
  show ?case by simp
qed

subsection \<open>The line wrapper\<close>

lemma wrapLoop_lines:
  "wrapLoop encoded i msg = msg @ concat (map (\<lambda>l. l @ CRLF) (linesFrom encoded i))"
proof (induction encoded i msg rule: wrapLoop.induct)
  case (1 encoded i msg)
  show ?case
  proof (cases "i < length encoded")
    case True
    with 1 show ?thesis
      by (subst wrapLoop.simps, subst linesFrom.simps) (simp add: Let_def)
  next
    case False
    then show ?thesis
      by (subst wrapLoop.simps, subst linesFrom.simps) simp
  qed
qed

lemma concat_linesFrom: "concat (linesFrom encoded i) = drop i encoded"
proof (induction encoded i rule: linesFrom.induct)
  case (1 encoded i)
  show ?case
  proof (cases "i < length encoded")
    case True
    have "take 76 (drop i encoded) @ drop (i + 76) encoded = drop i encoded"
      by (metis add.commute append_take_drop_id drop_drop)
    with True 1 show ?thesis
      by (subst linesFrom.simps) (auto simp: Let_def slice_def min_def)
  next
    case False
    then show ?thesis by (subst linesFrom.simps) simp
  qed
qed

lemma linesFrom_lengths:
  "l \<in> set (linesFrom encoded i) \<Longrightarrow> l \<noteq> [] \<and> length l \<le> 76"
proof (induction encoded i rule: linesFrom.induct)
  case (1 encoded i)
  show ?case
  proof (cases "i < length encoded")
    case True
    with 1 show ?thesis
      by (subst (asm) (2) linesFrom.simps) (auto simp: Let_def slice_def split: if_splits)
  next
    case False
    with 1(2) show ?thesis by (subst (asm) linesFrom.simps) simp
  qed
qed

lemma linesFrom_full:
  "l \<in> set (butlast (linesFrom encoded i)) \<Longrightarrow> length l = 76"
proof (induction encoded i rule: linesFrom.induct)
  case (1 encoded i)
  show ?case
  proof (cases "i + 76 < length encoded")
    case True
    then have ne: "linesFrom encoded (i + 76) \<noteq> []"
      by (subst linesFrom.simps) simp
    from True have "linesFrom encoded i = slice encoded i (i + 76) # linesFrom encoded (i + 76)"
      by (subst linesFrom.simps) simp
    with 1(2) ne have "l = slice encoded i (i + 76) \<or> l \<in> set (butlast (linesFrom encoded (i + 76)))"
      by auto
    then show ?thesis
    proof
      assume "l = slice encoded i (i + 76)"
      with True show ?thesis by (simp add: slice_def)
    next
      assume "l \<in> set (butlast (linesFrom encoded (i + 76)))"
      with 1(1) True show ?thesis by simp
    qed
  next
    case False
    then have "linesFrom encoded (i + 76) = []"
      by (subst linesFrom.simps) simp
    then have "butlast (linesFrom encoded i) = []"
      by (subst linesFrom.simps) (simp add: Let_def)
    with 1(2) show ?thesis by simp
  qed
qed

lemma EncodeToString_no_crlf:
  "c \<in> set (EncodeToString encodeStd src) \<Longrightarrow> c \<noteq> CHR 0x0D \<and> c \<noteq> CHR 0x0A"
proof (induction encodeStd src rule: EncodeToString.induct)
  case (1 a b c' src)
  then show ?case
    using encodeStd_nth_not_crlf by (auto simp: Let_def)
next
  case (2 a b)
  then show ?case
    using encodeStd_nth_not_crlf by (auto simp: Let_def padChar_def)
next
  case (3 a)
  then show ?case
    using encodeStd_nth_not_crlf by (auto simp: Let_def padChar_def)
next
  case 4
  then show ?case by simp
qed

lemma stripCRLF_lines: "stripCRLF (concat (map (\<lambda>l. l @ CRLF) ls)) = stripCRLF (concat ls)"
  by (induction ls) (simp_all add: stripCRLF_def CRLF_def)

lemma stripCRLF_id: "(\<And>c. c \<in> set s \<Longrightarrow> c \<noteq> CHR 0x0D \<and> c \<noteq> CHR 0x0A) \<Longrightarrow> stripCRLF s = s"
  unfolding stripCRLF_def by (rule filter_True) blast

lemma stripCRLF_wrapLoop:
  "stripCRLF (wrapLoop (EncodeToString encodeStd src) 0 []) = EncodeToString encodeStd src"
  by (simp add: wrapLoop_lines stripCRLF_lines concat_linesFrom stripCRLF_id EncodeToString_no_crlf)

lemma sample_encoded:
  "EncodeToString encodeStd sampleData
     = ''Q3VycmljdWx1bSB2aXRhZTogYmFja2VuZCBzeXN0ZW1zLCBHb2xhbmcsIGRpc3RyaWJ1dGVkIGRhdGEu''"
  by (simp add: sampleData_def encodeStd_def)

lemma sample_lines:
  "linesFrom ''Q3VycmljdWx1bSB2aXRhZTogYmFja2VuZCBzeXN0ZW1zLCBHb2xhbmcsIGRpc3RyaWJ1dGVkIGRhdGEu'' 0
     = [''Q3VycmljdWx1bSB2aXRhZTogYmFja2VuZCBzeXN0ZW1zLCBHb2xhbmcsIGRpc3RyaWJ1dGVkIGRh'', ''dGEu'']"
  by (simp add: linesFrom.simps slice_def)

text \<open>
  Claim C9: for every byte sequence of attachment data, the loop writes its standard
  base64 encoding as lines followed by CRLF, every line non-empty, of at most 76
  characters and free of CR and LF, every line but the last of exactly 76 characters; and
  decoding what the loop wrote, after removing the CRs and LFs, yields the original bytes.
\<close>

theorem attachment_base64_round_trip:
  "wrapLoop (EncodeToString encodeStd src) 0 msg
     = msg @ concat (map (\<lambda>l. l @ CRLF) (linesFrom (EncodeToString encodeStd src) 0))
   \<and> (\<forall>l \<in> set (linesFrom (EncodeToString encodeStd src) 0).
         l \<noteq> [] \<and> length l \<le> 76 \<and> CHR 0x0D \<notin> set l \<and> CHR 0x0A \<notin> set l)
   \<and> (\<forall>l \<in> set (butlast (linesFrom (EncodeToString encodeStd src) 0)). length l = 76)
   \<and> DecodeString encodeStd (stripCRLF (wrapLoop (EncodeToString encodeStd src) 0 [])) = Some src"
proof (intro conjI ballI)
  show "wrapLoop (EncodeToString encodeStd src) 0 msg
     = msg @ concat (map (\<lambda>l. l @ CRLF) (linesFrom (EncodeToString encodeStd src) 0))"
    by (rule wrapLoop_lines)
next
  fix l assume l: "l \<in> set (linesFrom (EncodeToString encodeStd src) 0)"
  then show "l \<noteq> []" "length l \<le> 76" by (simp_all add: linesFrom_lengths)
  from l have "set l \<subseteq> set (concat (linesFrom (EncodeToString encodeStd src) 0))" by auto
  then have "set l \<subseteq> set (EncodeToString encodeStd src)" by (simp add: concat_linesFrom)
  then show "CHR 0x0D \<notin> set l" "CHR 0x0A \<notin> set l"
    using EncodeToString_no_crlf by blast+
next
  fix l assume "l \<in> set (butlast (linesFrom (EncodeToString encodeStd src) 0))"
  then show "length l = 76" by (rule linesFrom_full)
next
  show "DecodeString encodeStd (stripCRLF (wrapLoop (EncodeToString encodeStd src) 0 [])) = Some src"
    by (simp only: stripCRLF_wrapLoop DecodeString_EncodeToString)
qed

theorem attachment_base64_round_trip_witness:
  "wrapLoop (EncodeToString encodeStd sampleData) 0 []
     = ''Q3VycmljdWx1bSB2aXRhZTogYmFja2VuZCBzeXN0ZW1zLCBHb2xhbmcsIGRpc3RyaWJ1dGVkIGRh'' @ CRLF
       @ ''dGEu'' @ CRLF
   \<and> length ''Q3VycmljdWx1bSB2aXRhZTogYmFja2VuZCBzeXN0ZW1zLCBHb2xhbmcsIGRpc3RyaWJ1dGVkIGRh'' = 76
   \<and> DecodeString encodeStd (stripCRLF (wrapLoop (EncodeToString encodeStd sampleData) 0 []))
       = Some sampleData"
proof -
  note t = attachment_base64_round_trip [of sampleData "[]"]
  from t have "wrapLoop (EncodeToString encodeStd sampleData) 0 []
     = [] @ concat (map (\<lambda>l. l @ CRLF) (linesFrom (EncodeToString encodeStd sampleData) 0))"
    by (rule conjunct1)
  then have 1: "wrapLoop (EncodeToString encodeStd sampleData) 0 []
     = ''Q3VycmljdWx1bSB2aXRhZTogYmFja2VuZCBzeXN0ZW1zLCBHb2xhbmcsIGRpc3RyaWJ1dGVkIGRh'' @ CRLF
       @ ''dGEu'' @ CRLF"
    unfolding sample_encoded sample_lines by simp
  have "''Q3VycmljdWx1bSB2aXRhZTogYmFja2VuZCBzeXN0ZW1zLCBHb2xhbmcsIGRpc3RyaWJ1dGVkIGRh''
          \<in> set (butlast (linesFrom (EncodeToString encodeStd sampleData) 0))"
    unfolding sample_encoded sample_lines by simp
  with t have 2: "length ''Q3VycmljdWx1bSB2aXRhZTogYmFja2VuZCBzeXN0ZW1zLCBHb2xhbmcsIGRpc3RyaWJ1dGVkIGRh'' = 76"
    by blast
  from t have 3: "DecodeString encodeStd (stripCRLF (wrapLoop (EncodeToString encodeStd sampleData) 0 []))
       = Some sampleData"
    by blast
  from 1 2 3 show ?thesis by (intro conjI)
qed

end
